theory Spec2Isabelle
  imports Complex_Main "HOL-Library.Char_ord" "HOL-Library.List_Lexorder"
    "HOL-Library.Product_Lexorder"
begin

section \<open>Python values and failures\<close>

text \<open>
  The three source files are Python.  Every \<^verbatim>\<open>raise\<close> of the source, and every
  exception a builtin raises on the inputs considered, is a value of \<open>error\<close>; a function
  that may raise returns \<open>error + 'a\<close> with \<open>Inl\<close> for the exception.
\<close>

datatype error = ValueError | RuntimeError | IndexError | ZeroDivisionError | ValidationError

subsection \<open>The builtin \<^verbatim>\<open>int(str)\<close>\<close>

text \<open>
  \<^verbatim>\<open>int(s)\<close> in base 10 on an ASCII string: surrounding whitespace (tab, line feed,
  vertical tab, form feed, carriage return and space) is dropped, one sign is accepted,
  then at least one decimal digit, with single underscores allowed between digits;
  anything else raises \<^verbatim>\<open>ValueError\<close>.
\<close>

definition py_isspace :: "char \<Rightarrow> bool" where
  "py_isspace c = ((of_char c :: nat) \<in> {9, 10, 11, 12, 13, 32})"

definition py_strip :: "string \<Rightarrow> string" where
  "py_strip s = rev (dropWhile py_isspace (rev (dropWhile py_isspace s)))"

definition is_digit :: "char \<Rightarrow> bool" where
  "is_digit c = (48 \<le> (of_char c :: nat) \<and> (of_char c :: nat) \<le> 57)"

definition digit_val :: "char \<Rightarrow> int" where
  "digit_val c = int (of_char c) - 48"

fun parse_digits :: "int \<Rightarrow> string \<Rightarrow> error + int" where
  "parse_digits acc [] = Inr acc"
| "parse_digits acc [c] =
     (if is_digit c then Inr (10 * acc + digit_val c) else Inl ValueError)"
| "parse_digits acc (c # d # ds) =
     (if is_digit c then parse_digits (10 * acc + digit_val c) (d # ds)
      else if c = CHR ''_'' \<and> is_digit d then parse_digits (10 * acc + digit_val d) ds
      else Inl ValueError)"

definition py_int :: "string \<Rightarrow> error + int" where
  "py_int s =
     (let t = py_strip s;
          neg = (case t of [] \<Rightarrow> False | c # _ \<Rightarrow> c = CHR ''-'');
          u = (case t of [] \<Rightarrow> [] | c # r \<Rightarrow> if c = CHR ''-'' \<or> c = CHR ''+'' then r else t)
      in case u of
           [] \<Rightarrow> Inl ValueError
         | c # cs \<Rightarrow>
             if is_digit c then
               (case parse_digits (digit_val c) cs of
                  Inl e \<Rightarrow> Inl e
                | Inr v \<Rightarrow> Inr (if neg then - v else v))
             else Inl ValueError)"

subsection \<open>The builtin \<^verbatim>\<open>max(iterable, key=f)\<close>\<close>

text \<open>
  \<^verbatim>\<open>max\<close> raises \<^verbatim>\<open>ValueError\<close> on an empty iterable and otherwise returns the first
  item, in iteration order, whose key is maximal: a later item replaces the current one
  only when its key is strictly greater.
\<close>

fun py_max_key :: "('a \<Rightarrow> 'b::linorder) \<Rightarrow> 'a list \<Rightarrow> error + 'a" where
  "py_max_key f [] = Inl ValueError"
| "py_max_key f (x # xs) = Inr (foldl (\<lambda>m y. if f m < f y then y else m) x xs)"

section \<open>Deutsch-Jozsa: \<^verbatim>\<open>dj.py\<close>\<close>

subsection \<open>\<^verbatim>\<open>DeutschJozsa.interpret_measurement\<close>\<close>

text \<open>
  The argument is a dict from measured bitstring to count.  It is an association list in
  the dict's iteration order (\<^verbatim>\<open>measurements.items()\<close>); \<^verbatim>\<open>operator.itemgetter(1)\<close>
  is \<open>snd\<close>.
\<close>

definition interpret_measurement :: "(string \<times> int) list \<Rightarrow> error + string" where
  "interpret_measurement measurements =
     (case py_max_key snd measurements of
        Inl e \<Rightarrow> Inl e
      | Inr top_item \<Rightarrow>
          (case py_int (fst top_item) of
             Inl e \<Rightarrow> Inl e
           | Inr top_measurement \<Rightarrow>
               Inr (if top_measurement = 0 then ''constant'' else ''balanced'')))"

text \<open>A measured bitstring: one character \<^verbatim>\<open>0\<close> or \<^verbatim>\<open>1\<close> per measured bit, at least one bit.\<close>

definition bitstring :: "string \<Rightarrow> bool" where
  "bitstring s = (s \<noteq> [] \<and> list_all (\<lambda>c. c = CHR ''0'' \<or> c = CHR ''1'') s)"

definition all_zero :: "string \<Rightarrow> bool" where
  "all_zero s = list_all (\<lambda>c. c = CHR ''0'') s"

subsection \<open>Circuits of the framework\<close>

text \<open>
  \<^verbatim>\<open>QuantumCircuit\<close>, \<^verbatim>\<open>ClassicalRegister\<close> and the oracle belong to the framework the
  file imports.  A circuit is what \<^verbatim>\<open>construct_circuit\<close> can observe of it: its quantum
  and classical registers and the list of its instructions, in order.  A register is a
  name with a size; \<^verbatim>\<open>len(register)\<close> is the size.  A gate method called on a whole
  register appends one instruction per bit, in index order; \<^verbatim>\<open>barrier()\<close> without
  arguments acts on every qubit of the circuit; \<^verbatim>\<open>a + b\<close> keeps the registers of \<open>a\<close>,
  adds those of \<open>b\<close> that \<open>a\<close> lacks, and appends the instructions of \<open>b\<close> to those of
  \<open>a\<close>.  Gates that only an oracle uses are \<open>OracleGate\<close>.
\<close>

type_synonym register = "string \<times> nat"

type_synonym bit = "register \<times> nat"

datatype 'g instruction =
    HGate bit
  | XGate bit
  | Barrier "bit list"
  | Measure bit bit
  | OracleGate 'g

record 'g quantum_circuit =
  qregs :: "register list"
  cregs :: "register list"
  data :: "'g instruction list"

definition len_register :: "register \<Rightarrow> nat" where
  "len_register r = snd r"

definition bits :: "register \<Rightarrow> bit list" where
  "bits r = map (\<lambda>i. (r, i)) [0..<len_register r]"

definition QuantumCircuit :: "register list \<Rightarrow> register list \<Rightarrow> 'g quantum_circuit" where
  "QuantumCircuit qs cs = \<lparr>qregs = qs, cregs = cs, data = []\<rparr>"

definition ClassicalRegister :: "nat \<Rightarrow> string \<Rightarrow> register" where
  "ClassicalRegister size_arg name_arg = (name_arg, size_arg)"

definition qc_h :: "register \<Rightarrow> 'g quantum_circuit \<Rightarrow> 'g quantum_circuit" where
  "qc_h r qc = qc\<lparr>data := data qc @ map HGate (bits r)\<rparr>"

definition qc_x :: "register \<Rightarrow> 'g quantum_circuit \<Rightarrow> 'g quantum_circuit" where
  "qc_x r qc = qc\<lparr>data := data qc @ map XGate (bits r)\<rparr>"

definition qc_barrier :: "'g quantum_circuit \<Rightarrow> 'g quantum_circuit" where
  "qc_barrier qc = qc\<lparr>data := data qc @ [Barrier (concat (map bits (qregs qc)))]\<rparr>"

definition qc_measure :: "register \<Rightarrow> register \<Rightarrow> 'g quantum_circuit \<Rightarrow> 'g quantum_circuit" where
  "qc_measure q c qc = qc\<lparr>data := data qc @ map2 Measure (bits q) (bits c)\<rparr>"

definition qc_add :: "'g quantum_circuit \<Rightarrow> 'g quantum_circuit \<Rightarrow> 'g quantum_circuit" where
  "qc_add a b =
     \<lparr>qregs = qregs a @ filter (\<lambda>r. r \<notin> set (qregs a)) (qregs b),
      cregs = cregs a @ filter (\<lambda>r. r \<notin> set (cregs a)) (cregs b),
      data = data a @ data b\<rparr>"

record 'g oracle_component =
  variable_register :: register
  output_register :: register
  oracle_circuit :: "'g quantum_circuit"

subsection \<open>\<^verbatim>\<open>DeutschJozsa.__init__\<close> and \<^verbatim>\<open>DeutschJozsa.construct_circuit\<close>\<close>

text \<open>
  The instance holds \<^verbatim>\<open>_oracle\<close> and the cache \<^verbatim>\<open>_circuit\<close>, which is \<^verbatim>\<open>None\<close> until
  the first call of \<^verbatim>\<open>construct_circuit\<close>.  The method mutates the instance, so the model
  returns the circuit together with the instance after the call.
\<close>

record 'g deutsch_jozsa =
  dj_oracle :: "'g oracle_component"
  dj_circuit :: "'g quantum_circuit option"

definition DeutschJozsa_init :: "'g oracle_component \<Rightarrow> 'g deutsch_jozsa" where
  "DeutschJozsa_init orc = \<lparr>dj_oracle = orc, dj_circuit = None\<rparr>"

definition qc_preoracle :: "'g oracle_component \<Rightarrow> 'g quantum_circuit" where
  "qc_preoracle orc =
     qc_barrier
       (qc_h (output_register orc)
          (qc_x (output_register orc)
             (qc_h (variable_register orc)
                (QuantumCircuit [variable_register orc, output_register orc] []))))"

definition qc_postoracle :: "'g oracle_component \<Rightarrow> 'g quantum_circuit" where
  "qc_postoracle orc =
     qc_barrier
       (qc_h (variable_register orc)
          (QuantumCircuit [variable_register orc, output_register orc] []))"

definition measurement_cr :: "'g oracle_component \<Rightarrow> register" where
  "measurement_cr orc = ClassicalRegister (len_register (variable_register orc)) ''m''"

definition qc_measurement :: "'g oracle_component \<Rightarrow> 'g quantum_circuit" where
  "qc_measurement orc =
     qc_measure (variable_register orc) (measurement_cr orc)
       (QuantumCircuit [variable_register orc] [measurement_cr orc])"

definition DeutschJozsa_construct_circuit ::
  "'g deutsch_jozsa \<Rightarrow> 'g quantum_circuit \<times> 'g deutsch_jozsa" where
  "DeutschJozsa_construct_circuit self =
     (case dj_circuit self of
        Some c \<Rightarrow> (c, self)
      | None \<Rightarrow>
          (let c = qc_add (qc_add (qc_add (qc_preoracle (dj_oracle self))
                                     (oracle_circuit (dj_oracle self)))
                             (qc_postoracle (dj_oracle self)))
                     (qc_measurement (dj_oracle self))
           in (c, self\<lparr>dj_circuit := Some c\<rparr>)))"

text \<open>Calling the method \<open>n\<close> times in a row, keeping the circuits returned.\<close>

fun construct_circuit_calls ::
  "nat \<Rightarrow> 'g deutsch_jozsa \<Rightarrow> 'g quantum_circuit list \<times> 'g deutsch_jozsa" where
  "construct_circuit_calls 0 self = ([], self)"
| "construct_circuit_calls (Suc n) self =
     (let (c, self') = DeutschJozsa_construct_circuit self;
          (cs, self'') = construct_circuit_calls n self'
      in (c # cs, self''))"

section \<open>Initial state from a variational form: \<^verbatim>\<open>var_form_based.py\<close>\<close>

text \<open>
  The variational form is an object of the framework: the class reads its
  \<^verbatim>\<open>num_parameters\<close> and calls its \<^verbatim>\<open>construct_circuit(params, q=register)\<close>.  The
  register argument defaults to \<^verbatim>\<open>None\<close>.
\<close>

record ('p, 'r, 'c) variational_form =
  num_parameters :: int
  vf_construct_circuit :: "'p list \<Rightarrow> 'r option \<Rightarrow> 'c"

record ('p, 'r, 'c) var_form_based =
  var_form :: "('p, 'r, 'c) variational_form"
  var_form_params :: "'p list"

definition VarFormBased_init ::
  "('p, 'r, 'c) variational_form \<Rightarrow> 'p list \<Rightarrow> error + ('p, 'r, 'c) var_form_based" where
  "VarFormBased_init vf params =
     (if \<not> (num_parameters vf = int (length params)) then Inl RuntimeError
      else Inr \<lparr>var_form = vf, var_form_params = params\<rparr>)"

definition VarFormBased_construct_circuit ::
  "('p, 'r, 'c) var_form_based \<Rightarrow> string \<Rightarrow> 'r option \<Rightarrow> error + 'c" where
  "VarFormBased_construct_circuit self mode register =
     (if mode = ''vector'' then Inl RuntimeError
      else if mode = ''circuit'' then
        Inr (vf_construct_circuit (var_form self) (var_form_params self) register)
      else Inl ValueError)"

section \<open>Quantum phase estimation: \<^verbatim>\<open>qpe.py\<close>\<close>

subsection \<open>\<^verbatim>\<open>QPE.CONFIGURATION\<close>\<close>

text \<open>
  The \<^verbatim>\<open>properties\<close> of the input schema, in the order of the source.  Each property
  has a \<^verbatim>\<open>type\<close> and a \<^verbatim>\<open>default\<close>; the integer ones have a \<^verbatim>\<open>minimum\<close>, the string
  one a \<^verbatim>\<open>oneOf\<close> with a single \<^verbatim>\<open>enum\<close>.
\<close>

datatype json_type = JInteger | JString

datatype json_value = JInt int | JStr string

record property_schema =
  p_type :: json_type
  p_default :: json_value
  p_minimum :: "int option"
  p_enum :: "string list option"

definition PROP_NUM_TIME_SLICES :: string where
  "PROP_NUM_TIME_SLICES = ''num_time_slices''"

definition PROP_EXPANSION_MODE :: string where
  "PROP_EXPANSION_MODE = ''expansion_mode''"

definition PROP_EXPANSION_ORDER :: string where
  "PROP_EXPANSION_ORDER = ''expansion_order''"

definition PROP_NUM_ANCILLAE :: string where
  "PROP_NUM_ANCILLAE = ''num_ancillae''"

definition QPE_properties :: "(string \<times> property_schema) list" where
  "QPE_properties =
     [(PROP_NUM_TIME_SLICES,
         \<lparr>p_type = JInteger, p_default = JInt 1, p_minimum = Some 1, p_enum = None\<rparr>),
      (PROP_EXPANSION_MODE,
         \<lparr>p_type = JString, p_default = JStr ''trotter'', p_minimum = None,
          p_enum = Some [''suzuki'', ''trotter'']\<rparr>),
      (PROP_EXPANSION_ORDER,
         \<lparr>p_type = JInteger, p_default = JInt 1, p_minimum = Some 1, p_enum = None\<rparr>),
      (PROP_NUM_ANCILLAE,
         \<lparr>p_type = JInteger, p_default = JInt 1, p_minimum = Some 1, p_enum = None\<rparr>)]"

subsection \<open>Validation of the constructor's arguments\<close>

text \<open>
  Modelled from the spec: \<^verbatim>\<open>validate\<close>, the method \<^verbatim>\<open>QPE.__init__\<close> calls first, is
  inherited from a class of the repository that is not among the source files.  The spec
  describes it as a configuration-schema layer that validates the constructor's parameters
  against the fixed schema of named options with types, defaults and minimums.  So: every
  argument that the schema names must have the declared type, be no smaller than the
  declared minimum, and be one of the enumerated values where there is an enumeration;
  the first argument that does not is rejected.
\<close>

definition has_type :: "json_type \<Rightarrow> json_value \<Rightarrow> bool" where
  "has_type t v = (case (t, v) of
       (JInteger, JInt _) \<Rightarrow> True
     | (JString, JStr _) \<Rightarrow> True
     | _ \<Rightarrow> False)"

definition meets_minimum :: "int option \<Rightarrow> json_value \<Rightarrow> bool" where
  "meets_minimum m v = (case (m, v) of
       (Some lo, JInt n) \<Rightarrow> lo \<le> n
     | _ \<Rightarrow> True)"

definition in_enum :: "string list option \<Rightarrow> json_value \<Rightarrow> bool" where
  "in_enum e v = (case e of
       None \<Rightarrow> True
     | Some allowed \<Rightarrow> (case v of JStr s \<Rightarrow> s \<in> set allowed | _ \<Rightarrow> False))"

definition valid_property :: "property_schema \<Rightarrow> json_value \<Rightarrow> bool" where
  "valid_property ps v =
     (has_type (p_type ps) v \<and> meets_minimum (p_minimum ps) v \<and> in_enum (p_enum ps) v)"

text \<open>
  Modelled from the spec: \<^verbatim>\<open>validate\<close> itself, which is not among the source files.  It
  goes through the arguments in order, looks each one up among the schema's properties,
  skips an argument the schema does not name, and rejects the first one that is not valid
  for its property.
\<close>

fun validate ::
  "(string \<times> property_schema) list \<Rightarrow> (string \<times> json_value) list \<Rightarrow> error + unit" where
  "validate properties [] = Inr ()"
| "validate properties ((name_arg, v) # args) =
     (case map_of properties name_arg of
        None \<Rightarrow> validate properties args
      | Some ps \<Rightarrow>
          if valid_property ps v then validate properties args else Inl ValidationError)"

subsection \<open>\<^verbatim>\<open>QPE.__init__\<close>\<close>

text \<open>
  The operator is an object of the framework; the constructor reads it through
  \<^verbatim>\<open>get_flat_pauli_list()\<close>, a list of pairs of a coefficient and a Pauli term, which is
  the argument here.  A coefficient is a Python number (\<^verbatim>\<open>int\<close>, \<^verbatim>\<open>float\<close>,
  \<^verbatim>\<open>complex\<close>) or a numpy scalar; \<^verbatim>\<open>abs\<close> of it is its modulus, a Python number in
  the first case and a numpy float in the second.  \<^verbatim>\<open>sum\<close> starts from the Python
  integer 0, and a sum with a numpy float in it is a numpy float.  Finite floats are the
  reals here.
\<close>

datatype coefficient = PyNum complex | NpNum complex

fun coefficient_abs :: "coefficient \<Rightarrow> real" where
  "coefficient_abs (PyNum z) = cmod z"
| "coefficient_abs (NpNum z) = cmod z"

fun is_numpy :: "coefficient \<Rightarrow> bool" where
  "is_numpy (PyNum z) = False"
| "is_numpy (NpNum z) = True"

text \<open>
  The value of \<^verbatim>\<open>0.5 / translation\<close>, and of the key \<^verbatim>\<open>stretch\<close>: a Python float, a
  finite numpy float, or the numpy float \<^verbatim>\<open>inf\<close>.  Dividing by a Python zero raises
  \<^verbatim>\<open>ZeroDivisionError\<close>; dividing by a numpy zero warns and gives \<^verbatim>\<open>inf\<close>.
\<close>

datatype stretch_value = PyFloat real | NpFloat real | NpInf

definition half_over :: "bool \<Rightarrow> real \<Rightarrow> error + stretch_value" where
  "half_over numpy tr =
     (if numpy then Inr (if tr = 0 then NpInf else NpFloat (0.5 / tr))
      else if tr = 0 then Inl ZeroDivisionError
      else Inr (PyFloat (0.5 / tr)))"

text \<open>
  The value of \<^verbatim>\<open>top_measurement_decimal / stretch - translation\<close>.  The decimal and
  the translation are finite.  Dividing by a Python zero raises; dividing by a numpy zero
  gives an infinity or, for \<^verbatim>\<open>0 / 0\<close>, \<^verbatim>\<open>nan\<close>; dividing by \<^verbatim>\<open>inf\<close> gives 0.
\<close>

datatype float_value = Finite real | PosInf | NegInf | NaN

definition truediv :: "real \<Rightarrow> stretch_value \<Rightarrow> error + float_value" where
  "truediv d st =
     (case st of
        PyFloat s \<Rightarrow> if s = 0 then Inl ZeroDivisionError else Inr (Finite (d / s))
      | NpFloat s \<Rightarrow>
          Inr (if s = 0 then (if d = 0 then NaN else if 0 < d then PosInf else NegInf)
               else Finite (d / s))
      | NpInf \<Rightarrow> Inr (Finite 0))"

fun float_sub :: "float_value \<Rightarrow> real \<Rightarrow> float_value" where
  "float_sub (Finite x) t = Finite (x - t)"
| "float_sub PosInf t = PosInf"
| "float_sub NegInf t = NegInf"
| "float_sub NaN t = NaN"

text \<open>
  The dict \<^verbatim>\<open>_ret\<close> has the keys \<^verbatim>\<open>translation\<close> and \<^verbatim>\<open>stretch\<close> after the
  constructor, and four more after a run.  The instance keeps what \<^verbatim>\<open>_compute_energy\<close>
  reads: \<^verbatim>\<open>_num_ancillae\<close>, \<^verbatim>\<open>_ret\<close> and \<^verbatim>\<open>_binary_fractions\<close>.  The lines 120 to 143
  hand the operator, its Pauli list and the other arguments to the framework
  (\<^verbatim>\<open>_simplify_paulis\<close>, \<^verbatim>\<open>+=\<close>, \<^verbatim>\<open>PhaseEstimationCircuit\<close>); the items of
  \<^verbatim>\<open>_pauli_list\<close> are shared with the operator, which these calls update in place, so
  what the list and the circuit hold afterwards is decided there and is not part of the
  instance here.
\<close>

record ret_init =
  translation :: real
  stretch :: stretch_value

record ret_run = ret_init +
  top_measurement_label :: string
  top_measurement_decimal :: real
  eigvals :: "float_value list"
  energy :: float_value

record qpe =
  num_ancillae :: int
  ret :: ret_init
  binary_fractions :: "real list"

definition QPE_binary_fractions :: "int \<Rightarrow> real list" where
  "QPE_binary_fractions n = map (\<lambda>p. 1 / 2 ^ nat p) [1..n]"

definition QPE_init ::
  "(coefficient \<times> 'p) list \<Rightarrow> int \<Rightarrow> int \<Rightarrow> string \<Rightarrow> int \<Rightarrow> error + qpe" where
  "QPE_init flat_pauli_list num_time_slices_arg num_ancillae_arg expansion_mode expansion_order =
     (case validate QPE_properties
             [(PROP_NUM_TIME_SLICES, JInt num_time_slices_arg),
              (PROP_NUM_ANCILLAE, JInt num_ancillae_arg),
              (PROP_EXPANSION_MODE, JStr expansion_mode),
              (PROP_EXPANSION_ORDER, JInt expansion_order)] of
        Inl e \<Rightarrow> Inl e
      | Inr _ \<Rightarrow>
          (let tr = sum_list (map (\<lambda>p. coefficient_abs (fst p)) flat_pauli_list)
           in case half_over (list_ex (\<lambda>p. is_numpy (fst p)) flat_pauli_list) tr of
                Inl e \<Rightarrow> Inl e
              | Inr st \<Rightarrow>
                  Inr \<lparr>num_ancillae = num_ancillae_arg,
                       ret = \<lparr>translation = tr, stretch = st\<rparr>,
                       binary_fractions = QPE_binary_fractions num_ancillae_arg\<rparr>))"

subsection \<open>\<^verbatim>\<open>QPE._compute_energy\<close>\<close>

text \<open>
  What the backend returns is the argument: in state-vector mode the diagonal of the
  reduced density matrix of the ancillae (\<^verbatim>\<open>ancilla_density_mat_diag\<close>, a complex
  array), otherwise the dict of counts, as an association list in iteration order.
\<close>

datatype execution = Statevector "complex list" | Counts "(string \<times> int) list"

text \<open>
  \<^verbatim>\<open>ndarray.min()\<close> and \<^verbatim>\<open>ndarray.max()\<close> order complex numbers by real part, then by
  imaginary part, and raise \<^verbatim>\<open>ValueError\<close> on an empty array.
\<close>

definition np_less :: "complex \<Rightarrow> complex \<Rightarrow> bool" where
  "np_less a b = (Re a < Re b \<or> (Re a = Re b \<and> Im a < Im b))"

fun np_min :: "complex list \<Rightarrow> error + complex" where
  "np_min [] = Inl ValueError"
| "np_min (x # xs) = Inr (foldl (\<lambda>m y. if np_less y m then y else m) x xs)"

fun np_max :: "complex list \<Rightarrow> error + complex" where
  "np_max [] = Inl ValueError"
| "np_max (x # xs) = Inr (foldl (\<lambda>m y. if np_less m y then y else m) x xs)"

text \<open>\<^verbatim>\<open>np.where(a == v)[0][0]\<close>: the first index holding \<open>v\<close>, \<^verbatim>\<open>IndexError\<close> if none.\<close>

fun np_where_first :: "complex list \<Rightarrow> complex \<Rightarrow> nat \<Rightarrow> error + nat" where
  "np_where_first [] v i = Inl IndexError"
| "np_where_first (a # as) v i = (if a = v then Inr i else np_where_first as v (Suc i))"

text \<open>
  \<^verbatim>\<open>np.binary_repr(num, width)\<close> for \<open>num \<ge> 0\<close>: the binary digits of \<open>num\<close>, most
  significant first, padded with zeros on the left up to \<open>width\<close> characters.
\<close>

fun bin_str :: "nat \<Rightarrow> string" where
  "bin_str n =
     (if n < 2 then [if n = 0 then CHR ''0'' else CHR ''1'']
      else bin_str (n div 2) @ [if n mod 2 = 0 then CHR ''0'' else CHR ''1''])"

declare bin_str.simps [simp del]

definition binary_repr :: "nat \<Rightarrow> int \<Rightarrow> string" where
  "binary_repr num width =
     (if num = 0 then replicate (nat (if width = 0 then 1 else width)) CHR ''0''
      else replicate (nat (width - int (length (bin_str num)))) CHR ''0'' @ bin_str num)"

text \<open>\<^verbatim>\<open>[int(n) for n in label]\<close>: the first character that is not a digit raises.\<close>

fun int_of_chars :: "string \<Rightarrow> error + int list" where
  "int_of_chars [] = Inr []"
| "int_of_chars (n # ns) =
     (case py_int [n] of
        Inl e \<Rightarrow> Inl e
      | Inr b \<Rightarrow> (case int_of_chars ns of Inl e \<Rightarrow> Inl e | Inr bs \<Rightarrow> Inr (b # bs)))"

definition top_measurement_label_of :: "qpe \<Rightarrow> execution \<Rightarrow> error + string" where
  "top_measurement_label_of self ex =
     (case ex of
        Statevector ancilla_density_mat_diag \<Rightarrow>
          (case np_min ancilla_density_mat_diag of
             Inl e \<Rightarrow> Inl e
           | Inr lo \<Rightarrow>
               (case np_max ancilla_density_mat_diag of
                  Inl e \<Rightarrow> Inl e
                | Inr hi \<Rightarrow>
                    (let max_amplitude = (if cmod lo < cmod hi then hi else lo)
                     in case np_where_first ancilla_density_mat_diag max_amplitude 0 of
                          Inl e \<Rightarrow> Inl e
                        | Inr max_amplitude_idx \<Rightarrow>
                            Inr (rev (binary_repr max_amplitude_idx (num_ancillae self))))))
      | Counts ancilla_counts \<Rightarrow>
          (case rev (sort (map (\<lambda>kc. (snd kc, fst kc)) ancilla_counts)) of
             [] \<Rightarrow> Inl IndexError
           | ck # _ \<Rightarrow> Inr (rev (snd ck))))"

definition top_measurement_decimal_of :: "real list \<Rightarrow> string \<Rightarrow> error + real" where
  "top_measurement_decimal_of fractions label =
     (case int_of_chars label of
        Inl e \<Rightarrow> Inl e
      | Inr ns \<Rightarrow> Inr (sum_list (map (\<lambda>t. fst t * real_of_int (snd t)) (zip fractions ns))))"

definition QPE_compute_energy :: "qpe \<Rightarrow> execution \<Rightarrow> error + ret_run" where
  "QPE_compute_energy self ex =
     (case top_measurement_label_of self ex of
        Inl e \<Rightarrow> Inl e
      | Inr label \<Rightarrow>
          (case top_measurement_decimal_of (binary_fractions self) label of
             Inl e \<Rightarrow> Inl e
           | Inr decimal \<Rightarrow>
               (case truediv decimal (stretch (ret self)) of
                  Inl e \<Rightarrow> Inl e
                | Inr ratio \<Rightarrow>
                    (let ev = [float_sub ratio (translation (ret self))]
                     in Inr \<lparr>translation = translation (ret self),
                             stretch = stretch (ret self),
                             top_measurement_label = label,
                             top_measurement_decimal = decimal,
                             eigvals = ev,
                             energy = hd ev\<rparr>))))"

text \<open>The value of the bit a character of a label stands for.\<close>

definition bit_of :: "char \<Rightarrow> int" where
  "bit_of c = (if c = CHR ''1'' then 1 else 0)"

section \<open>Properties\<close>

subsection \<open>The maximum selected by \<^verbatim>\<open>max\<close>\<close>

lemma foldl_max_mem:
  "foldl (\<lambda>m y. if f m < f y then y else m) x xs \<in> set (x # xs)"
  by (induction xs arbitrary: x) auto

lemma foldl_max_ge_init:
  fixes f :: "'a \<Rightarrow> 'b::linorder"
  shows "f x \<le> f (foldl (\<lambda>m y. if f m < f y then y else m) x xs)"
proof (induction xs arbitrary: x)
  case Nil
  show ?case by simp
next
  case (Cons a xs)
  show ?case
  proof (cases "f x < f a")
    case True
    have "f a \<le> f (foldl (\<lambda>m y. if f m < f y then y else m) a xs)" by (rule Cons.IH)
    with True show ?thesis by simp
  next
    case False
    then show ?thesis using Cons.IH [of x] by simp
  qed
qed

lemma foldl_max_ge:
  fixes f :: "'a \<Rightarrow> 'b::linorder"
  shows "y \<in> set (x # xs) \<Longrightarrow> f y \<le> f (foldl (\<lambda>m y. if f m < f y then y else m) x xs)"
proof (induction xs arbitrary: x)
  case Nil
  then show ?case by simp
next
  case (Cons a xs)
  show ?case
  proof (cases "y = x")
    case True
    then show ?thesis using foldl_max_ge_init [of f x "a # xs"] by simp
  next
    case False
    with Cons.prems have mem: "y = a \<or> y \<in> set xs" by auto
    show ?thesis
    proof (cases "f x < f a")
      case True
      from mem have "y \<in> set (a # xs)" by auto
      then have "f y \<le> f (foldl (\<lambda>m y. if f m < f y then y else m) a xs)" by (rule Cons.IH)
      with True show ?thesis by simp
    next
      case nlt: False
      show ?thesis
      proof (cases "y = a")
        case True
        with nlt have "f y \<le> f x" by simp
        also have "f x \<le> f (foldl (\<lambda>m y. if f m < f y then y else m) x xs)"
          by (rule foldl_max_ge_init)
        finally show ?thesis using nlt by simp
      next
        case False
        with mem have "y \<in> set (x # xs)" by simp
        then have "f y \<le> f (foldl (\<lambda>m y. if f m < f y then y else m) x xs)" by (rule Cons.IH)
        with nlt show ?thesis by simp
      qed
    qed
  qed
qed

lemma py_max_key_Inr:
  "xs \<noteq> [] \<Longrightarrow> \<exists>r. py_max_key f xs = Inr r \<and> r \<in> set xs \<and> (\<forall>y\<in>set xs. f y \<le> f r)"
proof (cases xs)
  case Nil
  assume "xs \<noteq> []"
  with Nil show ?thesis by simp
next
  case (Cons x xs')
  have "foldl (\<lambda>m y. if f m < f y then y else m) x xs' \<in> set (x # xs')" by (rule foldl_max_mem)
  moreover have "\<forall>y\<in>set (x # xs'). f y \<le> f (foldl (\<lambda>m y. if f m < f y then y else m) x xs')"
    using foldl_max_ge [of _ x xs' f] by blast
  ultimately show ?thesis using Cons by simp
qed

lemma bit_not_space: "c = CHR ''0'' \<or> c = CHR ''1'' \<Longrightarrow> \<not> py_isspace c"
  by (auto simp: py_isspace_def)

lemma bit_is_digit: "c = CHR ''0'' \<or> c = CHR ''1'' \<Longrightarrow> is_digit c"
  by (auto simp: is_digit_def)

lemma bit_digit_val:
  "c = CHR ''0'' \<or> c = CHR ''1'' \<Longrightarrow> digit_val c = (if c = CHR ''0'' then 0 else 1)"
  by (auto simp: digit_val_def)

lemma py_strip_bitstring: "bitstring s \<Longrightarrow> py_strip s = s"
proof -
  assume b: "bitstring s"
  then obtain c cs where s: "s = c # cs" by (cases s) (auto simp: bitstring_def)
  with b have "\<not> py_isspace c" by (auto simp: bitstring_def bit_not_space)
  with s have 1: "dropWhile py_isspace s = s" by simp
  from b have "rev s \<noteq> []" and "list_all (\<lambda>c. c = CHR ''0'' \<or> c = CHR ''1'') (rev s)"
    by (auto simp: bitstring_def list_all_iff)
  then obtain d ds where r: "rev s = d # ds" and "\<not> py_isspace d"
    by (cases "rev s") (auto simp: bit_not_space)
  then have "dropWhile py_isspace (rev s) = rev s" by simp
  with 1 show ?thesis by (simp add: py_strip_def)
qed

lemma parse_digits_bits:
  "list_all (\<lambda>c. c = CHR ''0'' \<or> c = CHR ''1'') cs \<Longrightarrow> 0 \<le> acc \<Longrightarrow>
   \<exists>v. parse_digits acc cs = Inr v \<and> 0 \<le> v \<and> (v = 0 \<longleftrightarrow> acc = 0 \<and> all_zero cs)"
proof (induction acc cs rule: parse_digits.induct)
  case (1 acc)
  then show ?case by (simp add: all_zero_def)
next
  case (2 acc c)
  then show ?case by (auto simp: all_zero_def bit_is_digit bit_digit_val)
next
  case (3 acc c d ds)
  from "3.prems" have c: "c = CHR ''0'' \<or> c = CHR ''1''"
    and rest: "list_all (\<lambda>c. c = CHR ''0'' \<or> c = CHR ''1'') (d # ds)" by auto
  from c have dig: "is_digit c" by (rule bit_is_digit)
  from c "3.prems" have nn: "0 \<le> 10 * acc + digit_val c" by (auto simp: bit_digit_val)
  from "3.IH"(1) [OF dig rest nn] obtain v where
    v: "parse_digits (10 * acc + digit_val c) (d # ds) = Inr v" "0 \<le> v"
       "v = 0 \<longleftrightarrow> 10 * acc + digit_val c = 0 \<and> all_zero (d # ds)" by blast
  have "10 * acc + digit_val c = 0 \<longleftrightarrow> acc = 0 \<and> c = CHR ''0''"
    using c "3.prems"(2) by (auto simp: bit_digit_val)
  with v dig show ?case by (auto simp: all_zero_def)
qed

lemma py_int_bitstring:
  assumes "bitstring s"
  shows "\<exists>v. py_int s = Inr v \<and> (v = 0 \<longleftrightarrow> all_zero s)"
proof -
  from assms obtain c cs where s: "s = c # cs" by (cases s) (auto simp: bitstring_def)
  with assms have c: "c = CHR ''0'' \<or> c = CHR ''1''"
    and cs: "list_all (\<lambda>c. c = CHR ''0'' \<or> c = CHR ''1'') cs" by (auto simp: bitstring_def)
  from c have nosign: "c \<noteq> CHR ''-''" "c \<noteq> CHR ''+''" by auto
  from c have dv: "0 \<le> digit_val c" by (auto simp: bit_digit_val)
  from parse_digits_bits [OF cs dv] obtain v where
    v: "parse_digits (digit_val c) cs = Inr v" "v = 0 \<longleftrightarrow> digit_val c = 0 \<and> all_zero cs" by blast
  have "digit_val c = 0 \<longleftrightarrow> c = CHR ''0''" using c by (auto simp: bit_digit_val)
  with v have zero: "v = 0 \<longleftrightarrow> all_zero s" by (simp add: s all_zero_def)
  have strip: "py_strip (c # cs) = c # cs"
    using py_strip_bitstring [OF assms] by (simp add: s)
  have "py_int s = Inr v"
    using v(1) nosign bit_is_digit [OF c] by (simp add: py_int_def strip s)
  with zero show ?thesis by blast
qed

text \<open>
  C1.  On a non-empty dict whose keys are measured bitstrings,
  \<^verbatim>\<open>interpret_measurement\<close> selects an entry whose count is the maximum (the first such
  entry in iteration order, which is what \<^verbatim>\<open>max\<close> returns) and answers \<^verbatim>\<open>constant\<close>
  if the selected bitstring consists of zeros only, and \<^verbatim>\<open>balanced\<close> otherwise.
\<close>

theorem interpret_measurement_classifies:
  assumes "measurements \<noteq> []"
    and "\<forall>kc\<in>set measurements. bitstring (fst kc)"
  shows "\<exists>k c. py_max_key snd measurements = Inr (k, c) \<and> (k, c) \<in> set measurements \<and>
           (\<forall>kc\<in>set measurements. snd kc \<le> c) \<and>
           interpret_measurement measurements =
             Inr (if all_zero k then ''constant'' else ''balanced'')"
proof -
  from py_max_key_Inr [OF assms(1), of snd] obtain r where
    r: "py_max_key snd measurements = Inr r" "r \<in> set measurements"
       "\<forall>y\<in>set measurements. snd y \<le> snd r" by blast
  from r(2) assms(2) have "bitstring (fst r)" by blast
  from py_int_bitstring [OF this] obtain v where
    v: "py_int (fst r) = Inr v" "v = 0 \<longleftrightarrow> all_zero (fst r)" by blast
  have "interpret_measurement measurements =
          Inr (if all_zero (fst r) then ''constant'' else ''balanced'')"
    using r(1) v by (simp add: interpret_measurement_def)
  with r show ?thesis by (cases r) auto
qed

theorem interpret_measurement_classifies_witness:
  "[(''00'', 3), (''01'', 5), (''10'', 5::int)] \<noteq> [] \<and>
   bitstring ''00'' \<and> bitstring ''01'' \<and> bitstring ''10'' \<and>
   py_max_key snd [(''00'', 3), (''01'', 5), (''10'', 5::int)] = Inr (''01'', 5) \<and>
   interpret_measurement [(''00'', 3), (''01'', 5), (''10'', 5)] = Inr ''balanced''"
proof -
  let ?m = "[(''00'', 3), (''01'', 5), (''10'', 5::int)]"
  have h1: "?m \<noteq> []" by simp
  have h2: "\<forall>kc\<in>set ?m. bitstring (fst kc)" by (simp add: bitstring_def)
  have e: "py_max_key snd ?m = Inr (''01'', 5)" by simp
  from interpret_measurement_classifies [OF h1 h2] obtain k c where
    kc: "py_max_key snd ?m = Inr (k, c)"
    and res: "interpret_measurement ?m = Inr (if all_zero k then ''constant'' else ''balanced'')"
    by blast
  from kc e have "k = ''01''" by simp
  with res have "interpret_measurement ?m = Inr ''balanced''" by (simp add: all_zero_def)
  moreover have "bitstring ''00'' \<and> bitstring ''01'' \<and> bitstring ''10''"
    using h2 by simp
  ultimately show ?thesis using h1 e by blast
qed

subsection \<open>The Deutsch-Jozsa circuit and its cache\<close>

lemma data_qc_preoracle:
  "data (qc_preoracle orc) =
     map HGate (bits (variable_register orc)) @ map XGate (bits (output_register orc)) @
     map HGate (bits (output_register orc)) @
     [Barrier (bits (variable_register orc) @ bits (output_register orc))]"
  by (simp add: qc_preoracle_def qc_barrier_def qc_h_def qc_x_def QuantumCircuit_def)

lemma data_qc_postoracle:
  "data (qc_postoracle orc) =
     map HGate (bits (variable_register orc)) @
     [Barrier (bits (variable_register orc) @ bits (output_register orc))]"
  by (simp add: qc_postoracle_def qc_barrier_def qc_h_def QuantumCircuit_def)

lemma data_qc_measurement:
  "data (qc_measurement orc) =
     map (\<lambda>i. Measure (variable_register orc, i) (measurement_cr orc, i))
       [0..<len_register (variable_register orc)]"
proof -
  have "len_register (measurement_cr orc) = len_register (variable_register orc)"
    by (simp add: measurement_cr_def ClassicalRegister_def len_register_def)
  then have "map2 Measure (bits (variable_register orc)) (bits (measurement_cr orc)) =
      map (\<lambda>i. Measure (variable_register orc, i) (measurement_cr orc, i))
        [0..<len_register (variable_register orc)]"
    by (simp add: bits_def zip_map_map zip_same_conv_map)
  then show ?thesis
    by (simp add: qc_measurement_def qc_measure_def QuantumCircuit_def)
qed

lemma construct_circuit_None:
  "dj_circuit self = None \<Longrightarrow>
   DeutschJozsa_construct_circuit self =
     (qc_add (qc_add (qc_add (qc_preoracle (dj_oracle self)) (oracle_circuit (dj_oracle self)))
                (qc_postoracle (dj_oracle self)))
        (qc_measurement (dj_oracle self)),
      self\<lparr>dj_circuit :=
        Some (qc_add (qc_add (qc_add (qc_preoracle (dj_oracle self))
                                (oracle_circuit (dj_oracle self)))
                        (qc_postoracle (dj_oracle self)))
                (qc_measurement (dj_oracle self)))\<rparr>)"
  by (simp add: DeutschJozsa_construct_circuit_def Let_def)

lemma construct_circuit_Some:
  "dj_circuit self = Some c \<Longrightarrow> DeutschJozsa_construct_circuit self = (c, self)"
  by (simp add: DeutschJozsa_construct_circuit_def)

lemma construct_circuit_calls_Some:
  "dj_circuit self = Some c \<Longrightarrow> construct_circuit_calls n self = (replicate n c, self)"
  by (induction n) (simp_all add: construct_circuit_Some)

lemma data_qc_add: "data (qc_add a b) = data a @ data b"
  by (simp add: qc_add_def)


lemma construct_circuit_calls_None:
  "dj_circuit self = None \<Longrightarrow> 0 < n \<Longrightarrow>
   snd (construct_circuit_calls n self) = snd (DeutschJozsa_construct_circuit self)"
proof (cases n)
  case 0
  assume "0 < n"
  with 0 show ?thesis by simp
next
  case (Suc m)
  assume none: "dj_circuit self = None"
  obtain c self' where first: "DeutschJozsa_construct_circuit self = (c, self')"
    by (cases "DeutschJozsa_construct_circuit self")
  with none have "dj_circuit self' = Some c" by (auto simp: construct_circuit_None)
  then have "construct_circuit_calls m self' = (replicate m c, self')"
    by (rule construct_circuit_calls_Some)
  with first Suc show ?thesis by simp
qed

text \<open>
  C7.  \<^verbatim>\<open>DeutschJozsa.construct_circuit\<close> returns the sum, in this order, of four circuits:
  the state preparation (a Hadamard on every qubit of the variable register, an X and
  then a Hadamard on every qubit of the output register, and a barrier), the oracle's
  circuit, the interference (a Hadamard on every qubit of the variable register, and a
  barrier), and the measurement of qubit \<open>i\<close> of the variable register into bit \<open>i\<close> of a
  classical register \<^verbatim>\<open>m\<close> of the same size.  This holds for the first call on a new
  instance and for every later call.
\<close>

theorem construct_circuit_four_segments:
  "fst (DeutschJozsa_construct_circuit (snd (construct_circuit_calls n (DeutschJozsa_init orc)))) =
     qc_add (qc_add (qc_add (qc_preoracle orc) (oracle_circuit orc)) (qc_postoracle orc))
       (qc_measurement orc) \<and>
   data (fst (DeutschJozsa_construct_circuit
                (snd (construct_circuit_calls n (DeutschJozsa_init orc))))) =
     (map HGate (bits (variable_register orc)) @ map XGate (bits (output_register orc)) @
      map HGate (bits (output_register orc)) @
      [Barrier (bits (variable_register orc) @ bits (output_register orc))]) @
     data (oracle_circuit orc) @
     (map HGate (bits (variable_register orc)) @
      [Barrier (bits (variable_register orc) @ bits (output_register orc))]) @
     map (\<lambda>i. Measure (variable_register orc, i)
                 ((''m'', len_register (variable_register orc)), i))
       [0..<len_register (variable_register orc)] \<and>
   cregs (qc_measurement orc) = [(''m'', len_register (variable_register orc))]"
proof -
  let ?four = "qc_add (qc_add (qc_add (qc_preoracle orc) (oracle_circuit orc))
                 (qc_postoracle orc)) (qc_measurement orc)"
  let ?self = "snd (construct_circuit_calls n (DeutschJozsa_init orc))"
  have none: "dj_circuit (DeutschJozsa_init orc) = None"
    and orc: "dj_oracle (DeutschJozsa_init orc) = orc"
    by (simp_all add: DeutschJozsa_init_def)
  have first: "DeutschJozsa_construct_circuit (DeutschJozsa_init orc) =
      (?four, (DeutschJozsa_init orc)\<lparr>dj_circuit := Some ?four\<rparr>)"
    using construct_circuit_None [OF none] by (simp add: orc)
  have ret: "fst (DeutschJozsa_construct_circuit ?self) = ?four"
  proof (cases n)
    case 0
    then show ?thesis using first by simp
  next
    case (Suc m)
    then have "?self = snd (DeutschJozsa_construct_circuit (DeutschJozsa_init orc))"
      using construct_circuit_calls_None [OF none, of n] by simp
    then have "dj_circuit ?self = Some ?four" using first by simp
    then show ?thesis by (simp add: construct_circuit_Some)
  qed
  have cr: "measurement_cr orc = (''m'', len_register (variable_register orc))"
    by (simp add: measurement_cr_def ClassicalRegister_def)
  have dat: "data ?four =
     (map HGate (bits (variable_register orc)) @ map XGate (bits (output_register orc)) @
      map HGate (bits (output_register orc)) @
      [Barrier (bits (variable_register orc) @ bits (output_register orc))]) @
     data (oracle_circuit orc) @
     (map HGate (bits (variable_register orc)) @
      [Barrier (bits (variable_register orc) @ bits (output_register orc))]) @
     map (\<lambda>i. Measure (variable_register orc, i)
                 ((''m'', len_register (variable_register orc)), i))
       [0..<len_register (variable_register orc)]"
    by (simp add: data_qc_add data_qc_preoracle data_qc_postoracle data_qc_measurement cr)
  have "cregs (qc_measurement orc) = [(''m'', len_register (variable_register orc))]"
    by (simp add: qc_measurement_def qc_measure_def QuantumCircuit_def cr)
  with ret dat show ?thesis by simp
qed

theorem construct_circuit_four_segments_witness:
  "data (fst (DeutschJozsa_construct_circuit
     (snd (construct_circuit_calls 2
        (DeutschJozsa_init
           \<lparr>variable_register = (''v'', 2), output_register = (''o'', 1),
            oracle_circuit = \<lparr>qregs = [(''v'', 2), (''o'', 1)], cregs = [],
                               data = [OracleGate True]\<rparr>\<rparr>))))) =
   [HGate ((''v'', 2), 0), HGate ((''v'', 2), 1), XGate ((''o'', 1), 0), HGate ((''o'', 1), 0),
    Barrier [((''v'', 2), 0), ((''v'', 2), 1), ((''o'', 1), 0)],
    OracleGate True,
    HGate ((''v'', 2), 0), HGate ((''v'', 2), 1),
    Barrier [((''v'', 2), 0), ((''v'', 2), 1), ((''o'', 1), 0)],
    Measure ((''v'', 2), 0) ((''m'', 2), 0), Measure ((''v'', 2), 1) ((''m'', 2), 1)]"
proof -
  have two: "[0..<2] = [0, Suc 0]" by (simp add: upt_rec)
  show ?thesis
    using construct_circuit_four_segments [of 2
        "\<lparr>variable_register = (''v'', 2), output_register = (''o'', 1),
          oracle_circuit = \<lparr>qregs = [(''v'', 2), (''o'', 1)], cregs = [],
                             data = [OracleGate True]\<rparr>\<rparr>", THEN conjunct2, THEN conjunct1]
    by (simp add: bits_def len_register_def two)
qed

text \<open>
  C9.  \<^verbatim>\<open>DeutschJozsa.construct_circuit\<close> caches its result.  After a call that returned
  \<open>c\<close> the instance stores \<open>c\<close>; if nothing was stored before, \<open>c\<close> is the circuit built
  from the oracle.  Every later call returns the stored \<open>c\<close> and leaves the instance as it
  is, also when the oracle has been replaced in between: the circuit is not built again.
\<close>

theorem construct_circuit_cached:
  assumes "DeutschJozsa_construct_circuit self = (c, self')"
  shows "dj_circuit self' = Some c \<and>
         (dj_circuit self = None \<longrightarrow>
            c = qc_add (qc_add (qc_add (qc_preoracle (dj_oracle self))
                                  (oracle_circuit (dj_oracle self)))
                          (qc_postoracle (dj_oracle self)))
                  (qc_measurement (dj_oracle self)) \<and>
            self' = self\<lparr>dj_circuit := Some c\<rparr>) \<and>
         DeutschJozsa_construct_circuit self' = (c, self') \<and>
         construct_circuit_calls n self' = (replicate n c, self') \<and>
         DeutschJozsa_construct_circuit (self'\<lparr>dj_oracle := orc'\<rparr>) =
           (c, self'\<lparr>dj_oracle := orc'\<rparr>)"
proof -
  have stored: "dj_circuit self' = Some c"
  proof (cases "dj_circuit self")
    case None
    from construct_circuit_None [OF None] assms show ?thesis by auto
  next
    case (Some c0)
    from construct_circuit_Some [OF Some] assms show ?thesis using Some by auto
  qed
  have built: "dj_circuit self = None \<longrightarrow>
            c = qc_add (qc_add (qc_add (qc_preoracle (dj_oracle self))
                                  (oracle_circuit (dj_oracle self)))
                          (qc_postoracle (dj_oracle self)))
                  (qc_measurement (dj_oracle self)) \<and>
            self' = self\<lparr>dj_circuit := Some c\<rparr>"
    using assms by (auto simp: construct_circuit_None)
  have again: "DeutschJozsa_construct_circuit self' = (c, self')"
    using stored by (rule construct_circuit_Some)
  have many: "construct_circuit_calls n self' = (replicate n c, self')"
    using stored by (rule construct_circuit_calls_Some)
  have "dj_circuit (self'\<lparr>dj_oracle := orc'\<rparr>) = Some c" using stored by simp
  then have "DeutschJozsa_construct_circuit (self'\<lparr>dj_oracle := orc'\<rparr>) =
           (c, self'\<lparr>dj_oracle := orc'\<rparr>)"
    by (rule construct_circuit_Some)
  with stored built again many show ?thesis by blast
qed

theorem construct_circuit_cached_witness:
  "DeutschJozsa_construct_circuit
     (DeutschJozsa_init
        \<lparr>variable_register = (''v'', 1), output_register = (''o'', 1),
         oracle_circuit = \<lparr>qregs = [(''v'', 1), (''o'', 1)], cregs = [], data = [OracleGate True]\<rparr>\<rparr>) =
   (\<lparr>qregs = [(''v'', 1), (''o'', 1)], cregs = [(''m'', 1)],
     data = [HGate ((''v'', 1), 0), XGate ((''o'', 1), 0), HGate ((''o'', 1), 0),
             Barrier [((''v'', 1), 0), ((''o'', 1), 0)], OracleGate True,
             HGate ((''v'', 1), 0), Barrier [((''v'', 1), 0), ((''o'', 1), 0)],
             Measure ((''v'', 1), 0) ((''m'', 1), 0)]\<rparr>,
    \<lparr>dj_oracle =
        \<lparr>variable_register = (''v'', 1), output_register = (''o'', 1),
         oracle_circuit = \<lparr>qregs = [(''v'', 1), (''o'', 1)], cregs = [], data = [OracleGate True]\<rparr>\<rparr>,
      dj_circuit = Some
       \<lparr>qregs = [(''v'', 1), (''o'', 1)], cregs = [(''m'', 1)],
        data = [HGate ((''v'', 1), 0), XGate ((''o'', 1), 0), HGate ((''o'', 1), 0),
             Barrier [((''v'', 1), 0), ((''o'', 1), 0)], OracleGate True,
             HGate ((''v'', 1), 0), Barrier [((''v'', 1), 0), ((''o'', 1), 0)],
             Measure ((''v'', 1), 0) ((''m'', 1), 0)]\<rparr>\<rparr>) \<and>
   DeutschJozsa_construct_circuit
     \<lparr>dj_oracle =
        \<lparr>variable_register = (''v'', 1), output_register = (''o'', 1),
         oracle_circuit = \<lparr>qregs = [(''v'', 1), (''o'', 1)], cregs = [], data = [OracleGate True]\<rparr>\<rparr>,
      dj_circuit = Some
       \<lparr>qregs = [(''v'', 1), (''o'', 1)], cregs = [(''m'', 1)],
        data = [HGate ((''v'', 1), 0), XGate ((''o'', 1), 0), HGate ((''o'', 1), 0),
             Barrier [((''v'', 1), 0), ((''o'', 1), 0)], OracleGate True,
             HGate ((''v'', 1), 0), Barrier [((''v'', 1), 0), ((''o'', 1), 0)],
             Measure ((''v'', 1), 0) ((''m'', 1), 0)]\<rparr>\<rparr> =
   (\<lparr>qregs = [(''v'', 1), (''o'', 1)], cregs = [(''m'', 1)],
     data = [HGate ((''v'', 1), 0), XGate ((''o'', 1), 0), HGate ((''o'', 1), 0),
             Barrier [((''v'', 1), 0), ((''o'', 1), 0)], OracleGate True,
             HGate ((''v'', 1), 0), Barrier [((''v'', 1), 0), ((''o'', 1), 0)],
             Measure ((''v'', 1), 0) ((''m'', 1), 0)]\<rparr>,
    \<lparr>dj_oracle =
        \<lparr>variable_register = (''v'', 1), output_register = (''o'', 1),
         oracle_circuit = \<lparr>qregs = [(''v'', 1), (''o'', 1)], cregs = [], data = [OracleGate True]\<rparr>\<rparr>,
      dj_circuit = Some
       \<lparr>qregs = [(''v'', 1), (''o'', 1)], cregs = [(''m'', 1)],
        data = [HGate ((''v'', 1), 0), XGate ((''o'', 1), 0), HGate ((''o'', 1), 0),
             Barrier [((''v'', 1), 0), ((''o'', 1), 0)], OracleGate True,
             HGate ((''v'', 1), 0), Barrier [((''v'', 1), 0), ((''o'', 1), 0)],
             Measure ((''v'', 1), 0) ((''m'', 1), 0)]\<rparr>\<rparr>)"
proof -
  let ?orc = "\<lparr>variable_register = (''v'', 1), output_register = (''o'', 1),
         oracle_circuit = \<lparr>qregs = [(''v'', 1), (''o'', 1)], cregs = [],
                            data = [OracleGate True]\<rparr>\<rparr>"
  let ?c = "\<lparr>qregs = [(''v'', 1), (''o'', 1)], cregs = [(''m'', 1)],
     data = [HGate ((''v'', 1), 0), XGate ((''o'', 1), 0), HGate ((''o'', 1), 0),
             Barrier [((''v'', 1), 0), ((''o'', 1), 0)], OracleGate True,
             HGate ((''v'', 1), 0), Barrier [((''v'', 1), 0), ((''o'', 1), 0)],
             Measure ((''v'', 1), 0) ((''m'', 1), 0)]\<rparr>"
  have first: "DeutschJozsa_construct_circuit (DeutschJozsa_init ?orc) =
      (?c, \<lparr>dj_oracle = ?orc, dj_circuit = Some ?c\<rparr>)"
    by (simp add: DeutschJozsa_construct_circuit_def DeutschJozsa_init_def qc_add_def
        qc_preoracle_def qc_postoracle_def qc_measurement_def measurement_cr_def
        ClassicalRegister_def QuantumCircuit_def qc_h_def qc_x_def qc_barrier_def
        qc_measure_def bits_def len_register_def Let_def)
  from construct_circuit_cached [OF first] first show ?thesis by blast
qed

subsection \<open>The initial state from a variational form\<close>

text \<open>
  C4.  The constructor of \<^verbatim>\<open>VarFormBased\<close> raises (a \<^verbatim>\<open>RuntimeError\<close>, and nothing
  else) exactly when the variational form's \<^verbatim>\<open>num_parameters\<close> differs from the length
  of the parameter list; when they agree it returns the instance holding the variational
  form and the parameters.
\<close>

theorem VarFormBased_init_fails_iff:
  "((\<exists>e. VarFormBased_init vf params = Inl e) \<longleftrightarrow> num_parameters vf \<noteq> int (length params)) \<and>
   (VarFormBased_init vf params = Inl RuntimeError \<longleftrightarrow>
      num_parameters vf \<noteq> int (length params)) \<and>
   (num_parameters vf = int (length params) \<longrightarrow>
      VarFormBased_init vf params = Inr \<lparr>var_form = vf, var_form_params = params\<rparr>)"
  by (simp add: VarFormBased_init_def)

theorem VarFormBased_init_fails_iff_witness:
  "num_parameters \<lparr>num_parameters = 2, vf_construct_circuit = Pair\<rparr> = int (length [0.5, 0.25 :: real]) \<and>
   VarFormBased_init \<lparr>num_parameters = 2, vf_construct_circuit = Pair\<rparr> [0.5, 0.25 :: real] =
     Inr \<lparr>var_form = \<lparr>num_parameters = 2,
                       vf_construct_circuit = (Pair :: real list \<Rightarrow> unit option \<Rightarrow> _)\<rparr>,
          var_form_params = [0.5, 0.25]\<rparr> \<and>
   num_parameters \<lparr>num_parameters = 2, vf_construct_circuit = Pair\<rparr> \<noteq> int (length [0.5 :: real]) \<and>
   VarFormBased_init \<lparr>num_parameters = 2,
       vf_construct_circuit = (Pair :: real list \<Rightarrow> unit option \<Rightarrow> _)\<rparr> [0.5 :: real] =
     Inl RuntimeError"
proof -
  let ?vf = "\<lparr>num_parameters = 2, vf_construct_circuit = (Pair :: real list \<Rightarrow> unit option \<Rightarrow> _)\<rparr>"
  have ok: "num_parameters ?vf = int (length [0.5, 0.25 :: real])" by simp
  have bad: "num_parameters ?vf \<noteq> int (length [0.5 :: real])" by simp
  from VarFormBased_init_fails_iff [of ?vf "[0.5, 0.25]"] ok
  have 1: "VarFormBased_init ?vf [0.5, 0.25] = Inr \<lparr>var_form = ?vf, var_form_params = [0.5, 0.25]\<rparr>"
    by blast
  from VarFormBased_init_fails_iff [of ?vf "[0.5]"] bad
  have 2: "VarFormBased_init ?vf [0.5] = Inl RuntimeError" by blast
  from ok bad 1 2 show ?thesis by simp
qed

text \<open>
  C5, as claimed: mode \<^verbatim>\<open>vector\<close> raises \<^verbatim>\<open>ValueError\<close>.  It does not: the branch for
  \<^verbatim>\<open>vector\<close> raises \<^verbatim>\<open>RuntimeError\<close>.
\<close>

theorem VarFormBased_vector_mode_counterexample:
  "VarFormBased_construct_circuit
     \<lparr>var_form = \<lparr>num_parameters = 1, vf_construct_circuit = Pair\<rparr>,
      var_form_params = [0.5 :: real]\<rparr> ''vector'' (None :: unit option) = Inl RuntimeError \<and>
   VarFormBased_construct_circuit
     \<lparr>var_form = \<lparr>num_parameters = 1, vf_construct_circuit = Pair\<rparr>,
      var_form_params = [0.5 :: real]\<rparr> ''vector'' (None :: unit option) \<noteq> Inl ValueError"
  by (simp add: VarFormBased_construct_circuit_def)

text \<open>
  C5, amended.  For every instance and register argument, mode \<^verbatim>\<open>vector\<close> raises
  \<^verbatim>\<open>RuntimeError\<close>, mode \<^verbatim>\<open>circuit\<close> returns what the variational form's
  \<^verbatim>\<open>construct_circuit\<close> returns for the stored parameters and the register, and every
  other mode raises \<^verbatim>\<open>ValueError\<close>.
\<close>

theorem VarFormBased_construct_circuit_modes:
  "VarFormBased_construct_circuit self ''vector'' register = Inl RuntimeError \<and>
   VarFormBased_construct_circuit self ''circuit'' register =
     Inr (vf_construct_circuit (var_form self) (var_form_params self) register) \<and>
   (mode \<noteq> ''vector'' \<and> mode \<noteq> ''circuit'' \<longrightarrow>
      VarFormBased_construct_circuit self mode register = Inl ValueError)"
  by (simp add: VarFormBased_construct_circuit_def)

theorem VarFormBased_construct_circuit_modes_witness:
  "''statevector'' \<noteq> ''vector'' \<and> ''statevector'' \<noteq> ''circuit'' \<and>
   VarFormBased_construct_circuit
     \<lparr>var_form = \<lparr>num_parameters = 1, vf_construct_circuit = Pair\<rparr>,
      var_form_params = [0.5 :: real]\<rparr> ''statevector'' (Some ''q'') = Inl ValueError \<and>
   VarFormBased_construct_circuit
     \<lparr>var_form = \<lparr>num_parameters = 1, vf_construct_circuit = Pair\<rparr>,
      var_form_params = [0.5 :: real]\<rparr> ''circuit'' (Some ''q'') = Inr ([0.5], Some ''q'') \<and>
   VarFormBased_construct_circuit
     \<lparr>var_form = \<lparr>num_parameters = 1, vf_construct_circuit = Pair\<rparr>,
      var_form_params = [0.5 :: real]\<rparr> ''vector'' (Some ''q'') = Inl RuntimeError"
proof -
  have m: "''statevector'' \<noteq> ''vector'' \<and> ''statevector'' \<noteq> ''circuit''" by simp
  from VarFormBased_construct_circuit_modes
    [of "\<lparr>var_form = \<lparr>num_parameters = 1, vf_construct_circuit = Pair\<rparr>,
          var_form_params = [0.5 :: real]\<rparr>" "Some ''q''" "''statevector''"] m
  show ?thesis by simp
qed

subsection \<open>The constructor of QPE and its configuration schema\<close>

lemmas PROP_defs =
  PROP_NUM_TIME_SLICES_def PROP_EXPANSION_MODE_def PROP_EXPANSION_ORDER_def PROP_NUM_ANCILLAE_def

lemmas valid_property_defs = valid_property_def has_type_def meets_minimum_def in_enum_def

lemma validate_QPE_args:
  "validate QPE_properties
     [(PROP_NUM_TIME_SLICES, JInt nts), (PROP_NUM_ANCILLAE, JInt na),
      (PROP_EXPANSION_MODE, JStr em), (PROP_EXPANSION_ORDER, JInt eo)] =
   (if 1 \<le> nts \<and> 1 \<le> na \<and> (em = ''suzuki'' \<or> em = ''trotter'') \<and> 1 \<le> eo then Inr ()
    else Inl ValidationError)"
  by (simp add: QPE_properties_def PROP_defs valid_property_defs)

lemma QPE_init_valid:
  assumes "1 \<le> nts" "1 \<le> na" "em = ''suzuki'' \<or> em = ''trotter''" "1 \<le> eo"
  shows "QPE_init pl nts na em eo =
     (case half_over (list_ex (\<lambda>p. is_numpy (fst p)) pl)
             (sum_list (map (\<lambda>p. coefficient_abs (fst p)) pl)) of
        Inl e \<Rightarrow> Inl e
      | Inr st \<Rightarrow>
          Inr \<lparr>num_ancillae = na,
               ret = \<lparr>translation = sum_list (map (\<lambda>p. coefficient_abs (fst p)) pl),
                      stretch = st\<rparr>,
               binary_fractions = QPE_binary_fractions na\<rparr>)"
  unfolding QPE_init_def validate_QPE_args using assms by (simp add: Let_def)

lemma QPE_init_invalid:
  "\<not> (1 \<le> nts \<and> 1 \<le> na \<and> (em = ''suzuki'' \<or> em = ''trotter'') \<and> 1 \<le> eo) \<Longrightarrow>
   QPE_init pl nts na em eo = Inl ValidationError"
  unfolding QPE_init_def validate_QPE_args by auto

lemma half_over_Inr:
  assumes "half_over numpy tr = Inr st"
  shows "tr \<noteq> 0 \<Longrightarrow> st = (if numpy then NpFloat (0.5 / tr) else PyFloat (0.5 / tr))"
    and "tr = 0 \<Longrightarrow> numpy \<and> st = NpInf"
  using assms by (auto simp: half_over_def split: if_splits)

lemma truediv_half_over:
  assumes "half_over numpy tr = Inr st"
  shows "truediv d st = Inr (Finite (if tr = 0 then 0 else d / (0.5 / tr)))"
  using assms by (auto simp: half_over_def truediv_def split: if_splits)

lemma QPE_init_Inr:
  assumes "QPE_init pl nts na em eo = Inr self"
  shows "1 \<le> na" and "num_ancillae self = na"
    and "binary_fractions self = QPE_binary_fractions na"
    and "translation (ret self) = sum_list (map (\<lambda>p. coefficient_abs (fst p)) pl)"
    and "half_over (list_ex (\<lambda>p. is_numpy (fst p)) pl) (translation (ret self)) =
           Inr (stretch (ret self))"
proof -
  have v: "1 \<le> nts \<and> 1 \<le> na \<and> (em = ''suzuki'' \<or> em = ''trotter'') \<and> 1 \<le> eo"
    using assms QPE_init_invalid [of nts na em eo pl] by auto
  let ?tr = "sum_list (map (\<lambda>p. coefficient_abs (fst p)) pl)"
  let ?np = "list_ex (\<lambda>p. is_numpy (fst p)) pl"
  from v have eq: "QPE_init pl nts na em eo =
     (case half_over ?np ?tr of
        Inl e \<Rightarrow> Inl e
      | Inr st \<Rightarrow>
          Inr \<lparr>num_ancillae = na, ret = \<lparr>translation = ?tr, stretch = st\<rparr>,
               binary_fractions = QPE_binary_fractions na\<rparr>)"
    by (simp add: QPE_init_valid)
  from v show "1 \<le> na" by simp
  from eq assms obtain st where st: "half_over ?np ?tr = Inr st"
    and self: "self = \<lparr>num_ancillae = na, ret = \<lparr>translation = ?tr, stretch = st\<rparr>,
               binary_fractions = QPE_binary_fractions na\<rparr>"
    by (cases "half_over ?np ?tr") auto
  show "num_ancillae self = na" by (simp add: self)
  show "binary_fractions self = QPE_binary_fractions na" by (simp add: self)
  show "translation (ret self) = ?tr" by (simp add: self)
  show "half_over ?np (translation (ret self)) = Inr (stretch (ret self))"
    using st by (simp add: self)
qed

lemma coefficient_abs_zero_iff: "coefficient_abs c = 0 \<longleftrightarrow> c = PyNum 0 \<or> c = NpNum 0"
  by (cases c) simp_all

lemma sum_coefficient_abs_zero_iff:
  "sum_list (map (\<lambda>p. coefficient_abs (fst p)) pl) = 0 \<longleftrightarrow>
   (\<forall>p\<in>set pl. fst p = PyNum 0 \<or> fst p = NpNum 0)"
proof -
  have nonneg: "\<And>x. x \<in> set (map (\<lambda>p. coefficient_abs (fst p)) pl) \<Longrightarrow> 0 \<le> x"
  proof -
    fix x assume "x \<in> set (map (\<lambda>p. coefficient_abs (fst p)) pl)"
    then obtain p where "x = coefficient_abs (fst p)" by auto
    then show "0 \<le> x" by (cases "fst p") simp_all
  qed
  have "sum_list (map (\<lambda>p. coefficient_abs (fst p)) pl) = 0 \<longleftrightarrow>
        (\<forall>x\<in>set (map (\<lambda>p. coefficient_abs (fst p)) pl). x = 0)"
    using nonneg by (rule sum_list_nonneg_eq_0_iff)
  then show ?thesis by (simp add: coefficient_abs_zero_iff)
qed

text \<open>
  C8.  The schema declares \<^verbatim>\<open>num_time_slices\<close>, \<^verbatim>\<open>expansion_order\<close> and
  \<^verbatim>\<open>num_ancillae\<close> each as an integer with default 1 and minimum 1.  Validation rejects
  a value of any of them exactly when it is below 1, and the constructor is rejected by
  validation when one of its three arguments is below 1.
\<close>

theorem QPE_schema_integer_minimums:
  "map_of QPE_properties PROP_NUM_TIME_SLICES =
     Some \<lparr>p_type = JInteger, p_default = JInt 1, p_minimum = Some 1, p_enum = None\<rparr> \<and>
   map_of QPE_properties PROP_EXPANSION_ORDER =
     Some \<lparr>p_type = JInteger, p_default = JInt 1, p_minimum = Some 1, p_enum = None\<rparr> \<and>
   map_of QPE_properties PROP_NUM_ANCILLAE =
     Some \<lparr>p_type = JInteger, p_default = JInt 1, p_minimum = Some 1, p_enum = None\<rparr> \<and>
   (validate QPE_properties [(PROP_NUM_TIME_SLICES, JInt n)] = Inl ValidationError \<longleftrightarrow> n < 1) \<and>
   (validate QPE_properties [(PROP_EXPANSION_ORDER, JInt n)] = Inl ValidationError \<longleftrightarrow> n < 1) \<and>
   (validate QPE_properties [(PROP_NUM_ANCILLAE, JInt n)] = Inl ValidationError \<longleftrightarrow> n < 1) \<and>
   (nts < 1 \<or> na < 1 \<or> eo < 1 \<longrightarrow> QPE_init pl nts na em eo = Inl ValidationError)"
proof -
  have props: "map_of QPE_properties PROP_NUM_TIME_SLICES =
     Some \<lparr>p_type = JInteger, p_default = JInt 1, p_minimum = Some 1, p_enum = None\<rparr>"
    "map_of QPE_properties PROP_EXPANSION_ORDER =
     Some \<lparr>p_type = JInteger, p_default = JInt 1, p_minimum = Some 1, p_enum = None\<rparr>"
    "map_of QPE_properties PROP_NUM_ANCILLAE =
     Some \<lparr>p_type = JInteger, p_default = JInt 1, p_minimum = Some 1, p_enum = None\<rparr>"
    by (simp_all add: QPE_properties_def PROP_defs)
  have one: "validate QPE_properties [(PROP_NUM_TIME_SLICES, JInt n)] = Inl ValidationError \<longleftrightarrow> n < 1"
    "validate QPE_properties [(PROP_EXPANSION_ORDER, JInt n)] = Inl ValidationError \<longleftrightarrow> n < 1"
    "validate QPE_properties [(PROP_NUM_ANCILLAE, JInt n)] = Inl ValidationError \<longleftrightarrow> n < 1"
    by (auto simp: props valid_property_defs)
  have "nts < 1 \<or> na < 1 \<or> eo < 1 \<longrightarrow> QPE_init pl nts na em eo = Inl ValidationError"
    using QPE_init_invalid [of nts na em eo pl] by auto
  with props one show ?thesis by blast
qed

theorem QPE_schema_integer_minimums_witness:
  "((0::int) < 1 \<or> (3::int) < 1 \<or> (1::int) < 1) \<and>
   QPE_init [(PyNum 2, ''X''), (PyNum (- 2), ''Z'')] 0 3 ''trotter'' 1 = Inl ValidationError \<and>
   validate QPE_properties [(PROP_NUM_TIME_SLICES, JInt 0)] = Inl ValidationError \<and>
   validate QPE_properties [(PROP_NUM_TIME_SLICES, JInt 1)] \<noteq> Inl ValidationError"
proof -
  have h: "(0::int) < 1 \<or> (3::int) < 1 \<or> (1::int) < 1" by simp
  note t0 = QPE_schema_integer_minimums
    [of 0 0 3 1 "[(PyNum 2, ''X''), (PyNum (- 2), ''Z'')]" "''trotter''"]
  from t0 h
  have 1: "QPE_init [(PyNum 2, ''X''), (PyNum (- 2), ''Z'')] 0 3 ''trotter'' 1 = Inl ValidationError"
    by blast
  have lt: "(0::int) < 1" by simp
  from t0 lt have 2: "validate QPE_properties [(PROP_NUM_TIME_SLICES, JInt 0)] = Inl ValidationError"
    by blast
  have nlt: "\<not> (1::int) < 1" by simp
  from QPE_schema_integer_minimums [of 1] nlt
  have 3: "validate QPE_properties [(PROP_NUM_TIME_SLICES, JInt 1)] \<noteq> Inl ValidationError"
    by blast
  from h 1 2 3 show ?thesis by blast
qed

text \<open>
  C10, as claimed: a list of coefficients whose moduli sum to zero makes the constructor
  fail with a division by zero.  It does not when a coefficient is a numpy scalar: the
  sum is then a numpy float, \<^verbatim>\<open>0.5 / translation\<close> is \<^verbatim>\<open>inf\<close> and the constructor goes
  on.
\<close>

theorem QPE_init_numpy_zero_counterexample:
  "coefficient_abs (NpNum 0) = 0 \<and>
   QPE_init [(NpNum 0, ''X'')] 1 3 ''trotter'' 1 =
     Inr \<lparr>num_ancillae = 3, ret = \<lparr>translation = 0, stretch = NpInf\<rparr>,
          binary_fractions = QPE_binary_fractions 3\<rparr> \<and>
   QPE_init [(NpNum 0, ''X'')] 1 3 ''trotter'' 1 \<noteq> Inl ZeroDivisionError"
  by (simp add: QPE_init_valid half_over_def)

text \<open>
  C10, amended.  With arguments that pass validation, the constructor takes as
  translation the sum of the moduli of the coefficients of the flat Pauli list and as
  stretch 0.5 divided by the translation.  That sum is zero exactly when every
  coefficient is zero (in particular when the list is empty).  The constructor raises
  \<^verbatim>\<open>ZeroDivisionError\<close> exactly when the sum is zero and no coefficient is a numpy scalar;
  when the sum is zero and some coefficient is a numpy scalar it returns with the stretch
  \<^verbatim>\<open>inf\<close>.
\<close>

theorem QPE_init_translation_stretch:
  assumes "1 \<le> nts" and "1 \<le> na" and "em = ''suzuki'' \<or> em = ''trotter''" and "1 \<le> eo"
  shows "(QPE_init pl nts na em eo = Inl ZeroDivisionError \<longleftrightarrow>
            sum_list (map (\<lambda>p. coefficient_abs (fst p)) pl) = 0 \<and>
            \<not> list_ex (\<lambda>p. is_numpy (fst p)) pl) \<and>
         (sum_list (map (\<lambda>p. coefficient_abs (fst p)) pl) = 0 \<longleftrightarrow>
            (\<forall>p\<in>set pl. fst p = PyNum 0 \<or> fst p = NpNum 0)) \<and>
         (sum_list (map (\<lambda>p. coefficient_abs (fst p)) pl) \<noteq> 0 \<longrightarrow>
            (\<exists>self. QPE_init pl nts na em eo = Inr self \<and>
               translation (ret self) = sum_list (map (\<lambda>p. coefficient_abs (fst p)) pl) \<and>
               stretch (ret self) =
                 (if list_ex (\<lambda>p. is_numpy (fst p)) pl
                  then NpFloat (0.5 / sum_list (map (\<lambda>p. coefficient_abs (fst p)) pl))
                  else PyFloat (0.5 / sum_list (map (\<lambda>p. coefficient_abs (fst p)) pl))))) \<and>
         (sum_list (map (\<lambda>p. coefficient_abs (fst p)) pl) = 0 \<and>
          list_ex (\<lambda>p. is_numpy (fst p)) pl \<longrightarrow>
            (\<exists>self. QPE_init pl nts na em eo = Inr self \<and>
               translation (ret self) = 0 \<and> stretch (ret self) = NpInf))"
proof -
  note eq = QPE_init_valid [OF assms, of pl]
  let ?tr = "sum_list (map (\<lambda>p. coefficient_abs (fst p)) pl)"
  let ?np = "list_ex (\<lambda>p. is_numpy (fst p)) pl"
  have 1: "QPE_init pl nts na em eo = Inl ZeroDivisionError \<longleftrightarrow> ?tr = 0 \<and> \<not> ?np"
    unfolding eq by (simp add: half_over_def)
  have 3: "?tr \<noteq> 0 \<longrightarrow>
            (\<exists>self. QPE_init pl nts na em eo = Inr self \<and> translation (ret self) = ?tr \<and>
               stretch (ret self) = (if ?np then NpFloat (0.5 / ?tr) else PyFloat (0.5 / ?tr)))"
    unfolding eq by (simp add: half_over_def)
  have 4: "?tr = 0 \<and> ?np \<longrightarrow>
            (\<exists>self. QPE_init pl nts na em eo = Inr self \<and>
               translation (ret self) = 0 \<and> stretch (ret self) = NpInf)"
    unfolding eq by (simp add: half_over_def)
  from 1 3 4 sum_coefficient_abs_zero_iff [of pl] show ?thesis by blast
qed

theorem QPE_init_translation_stretch_witness:
  "(1::int) \<le> 1 \<and> (1::int) \<le> 3 \<and> (''trotter'' = ''suzuki'' \<or> ''trotter'' = ''trotter'') \<and>
   coefficient_abs (PyNum 0) = 0 \<and>
   QPE_init [(PyNum 0, ''X''), (PyNum 0, ''Z'')] 1 3 ''trotter'' 1 = Inl ZeroDivisionError \<and>
   QPE_init ([] :: (coefficient \<times> string) list) 1 3 ''trotter'' 1 = Inl ZeroDivisionError \<and>
   coefficient_abs (PyNum 2) + coefficient_abs (PyNum (- 2)) = 4 \<and>
   QPE_init [(PyNum 2, ''X''), (PyNum (- 2), ''Z'')] 1 3 ''trotter'' 1 \<noteq> Inl ZeroDivisionError \<and>
   QPE_init [(PyNum 0, ''X''), (NpNum 0, ''Z'')] 1 3 ''trotter'' 1 \<noteq> Inl ZeroDivisionError"
proof -
  have h: "(1::int) \<le> 1" "(1::int) \<le> 3" "''trotter'' = ''suzuki'' \<or> ''trotter'' = ''trotter''"
    by simp_all
  note t = QPE_init_translation_stretch [OF h(1) h(2) h(3) h(1)]
  have z: "sum_list (map (\<lambda>p. coefficient_abs (fst p)) [(PyNum 0, ''X''), (PyNum 0, ''Z'')]) = 0"
    "\<not> list_ex (\<lambda>p. is_numpy (fst p)) [(PyNum 0, ''X''), (PyNum 0, ''Z'')]" by simp_all
  have e: "sum_list (map (\<lambda>p. coefficient_abs (fst p)) ([] :: (coefficient \<times> string) list)) = 0"
    "\<not> list_ex (\<lambda>p. is_numpy (fst p)) ([] :: (coefficient \<times> string) list)" by simp_all
  have f: "sum_list (map (\<lambda>p. coefficient_abs (fst p)) [(PyNum 2, ''X''), (PyNum (- 2), ''Z'')]) \<noteq> 0"
    by simp
  have g: "list_ex (\<lambda>p. is_numpy (fst p)) [(PyNum 0, ''X''), (NpNum 0, ''Z'')]" by simp
  from t [of "[(PyNum 0, ''X''), (PyNum 0, ''Z'')]"] z
  have 1: "QPE_init [(PyNum 0, ''X''), (PyNum 0, ''Z'')] 1 3 ''trotter'' 1 = Inl ZeroDivisionError"
    by blast
  from t [of "[] :: (coefficient \<times> string) list"] e
  have 2: "QPE_init ([] :: (coefficient \<times> string) list) 1 3 ''trotter'' 1 = Inl ZeroDivisionError"
    by blast
  from t [of "[(PyNum 2, ''X''), (PyNum (- 2), ''Z'')]"] f
  have 3: "QPE_init [(PyNum 2, ''X''), (PyNum (- 2), ''Z'')] 1 3 ''trotter'' 1 \<noteq> Inl ZeroDivisionError"
    by blast
  from t [of "[(PyNum 0, ''X''), (NpNum 0, ''Z'')]"] g
  have 4: "QPE_init [(PyNum 0, ''X''), (NpNum 0, ''Z'')] 1 3 ''trotter'' 1 \<noteq> Inl ZeroDivisionError"
    by blast
  have a0: "coefficient_abs (PyNum 0) = 0" by simp
  have a4: "coefficient_abs (PyNum 2) + coefficient_abs (PyNum (- 2)) = 4" by simp
  from h a0 1 2 a4 3 4 show ?thesis by blast
qed

subsection \<open>Decoding the top measurement\<close>

lemma py_int_bit_char:
  assumes "c = CHR ''0'' \<or> c = CHR ''1''"
  shows "py_int [c] = Inr (bit_of c)"
proof -
  have "\<not> py_isspace c" using assms by (rule bit_not_space)
  then have "py_strip [c] = [c]" by (simp add: py_strip_def)
  moreover have "c \<noteq> CHR ''-''" "c \<noteq> CHR ''+''" using assms by auto
  moreover have "digit_val c = bit_of c" using assms by (auto simp: bit_digit_val bit_of_def)
  ultimately show ?thesis using bit_is_digit [OF assms] by (simp add: py_int_def)
qed

lemma int_of_chars_bits:
  "list_all (\<lambda>c. c = CHR ''0'' \<or> c = CHR ''1'') label \<Longrightarrow>
   int_of_chars label = Inr (map bit_of label)"
  by (induction label) (simp_all add: py_int_bit_char)

lemma sum_list_zip_nth:
  fixes f :: "'a \<times> 'b \<Rightarrow> real"
  shows "sum_list (map f (zip xs ys)) = (\<Sum>i<min (length xs) (length ys). f (xs ! i, ys ! i))"
proof -
  have "sum_list (map f (zip xs ys)) = (\<Sum>i = 0..<length (map f (zip xs ys)). map f (zip xs ys) ! i)"
    by (rule sum_list_sum_nth)
  also have "\<dots> = (\<Sum>i = 0..<min (length xs) (length ys). f (xs ! i, ys ! i))"
    by (rule sum.cong) simp_all
  finally show ?thesis by (simp add: atLeast0LessThan)
qed

lemma length_QPE_binary_fractions: "length (QPE_binary_fractions n) = nat n"
  by (simp add: QPE_binary_fractions_def)

lemma nth_QPE_binary_fractions:
  "i < nat n \<Longrightarrow> QPE_binary_fractions n ! i = 1 / 2 ^ (Suc i)"
proof -
  assume i: "i < nat n"
  then have "[1..n] ! i = 1 + int i" by (simp add: nth_upto)
  moreover from i have "i < length [1..n]" by simp
  ultimately have "QPE_binary_fractions n ! i = 1 / 2 ^ nat (1 + int i)"
    by (simp add: QPE_binary_fractions_def)
  moreover have "nat (1 + int i) = Suc i" by simp
  ultimately show ?thesis by simp
qed

lemma top_measurement_decimal_of_bits:
  assumes "list_all (\<lambda>c. c = CHR ''0'' \<or> c = CHR ''1'') label"
  shows "top_measurement_decimal_of (QPE_binary_fractions n) label =
     Inr (\<Sum>i = 1..min (nat n) (length label). real_of_int (bit_of (label ! (i - 1))) / 2 ^ i)"
proof -
  let ?m = "min (nat n) (length label)"
  have "sum_list (map (\<lambda>t. fst t * real_of_int (snd t))
          (zip (QPE_binary_fractions n) (map bit_of label))) =
        (\<Sum>i<?m. QPE_binary_fractions n ! i * real_of_int (map bit_of label ! i))"
    by (simp add: sum_list_zip_nth length_QPE_binary_fractions)
  also have "\<dots> = (\<Sum>i<?m. real_of_int (bit_of (label ! i)) / 2 ^ (Suc i))"
    by (rule sum.cong) (simp_all add: nth_QPE_binary_fractions)
  also have "\<dots> = (\<Sum>i = 1..?m. real_of_int (bit_of (label ! (i - 1))) / 2 ^ i)"
    by (simp add: sum.atLeast1_atMost_eq)
  finally show ?thesis
    by (simp add: top_measurement_decimal_of_def int_of_chars_bits [OF assms])
qed

lemma sum_list_map_zero:
  "(\<And>t. t \<in> set ts \<Longrightarrow> f t = (0::real)) \<Longrightarrow> sum_list (map f ts) = 0"
  by (induction ts) simp_all

lemma top_measurement_decimal_of_zeros:
  "top_measurement_decimal_of fractions (replicate m CHR ''0'') = Inr 0"
proof -
  have "int_of_chars (replicate m CHR ''0'') = Inr (map bit_of (replicate m CHR ''0''))"
    by (rule int_of_chars_bits) (simp add: list_all_iff)
  moreover have "sum_list (map (\<lambda>t. fst t * real_of_int (snd t))
      (zip fractions (map bit_of (replicate m CHR ''0'')))) = 0"
  proof (rule sum_list_map_zero)
    fix t assume t: "t \<in> set (zip fractions (map bit_of (replicate m CHR ''0'')))"
    obtain a b where ab: "t = (a, b)" by (cases t)
    with t have "(a, b) \<in> set (zip fractions (map bit_of (replicate m CHR ''0'')))" by simp
    then have "b \<in> set (map bit_of (replicate m CHR ''0''))" by (rule set_zip_rightD)
    then have "b = 0" by (auto simp: bit_of_def)
    with ab show "fst t * real_of_int (snd t) = 0" by simp
  qed
  ultimately show ?thesis by (simp add: top_measurement_decimal_of_def)
qed

lemma sort_last_max:
  fixes xs :: "'a::linorder list"
  assumes "xs \<noteq> []"
  shows "\<exists>m ms. rev (sort xs) = m # ms \<and> m \<in> set xs \<and> (\<forall>x\<in>set xs. x \<le> m)"
proof -
  from assms have "sort xs \<noteq> []" by (metis length_0_conv length_sort)
  then obtain bs m where snoc: "sort xs = bs @ [m]" by (cases "sort xs" rule: rev_cases) auto
  then have r: "rev (sort xs) = m # rev bs" by simp
  have "sorted (bs @ [m])" using sorted_sort [of xs] by (simp add: snoc)
  then have "\<forall>x\<in>set bs. x \<le> m" by (simp add: sorted_append)
  moreover have "set xs = set (bs @ [m])" using snoc by (metis set_sort)
  ultimately have "m \<in> set xs" and "\<forall>x\<in>set xs. x \<le> m" by auto
  with r show ?thesis by blast
qed

lemma top_measurement_label_of_Counts:
  assumes "cs \<noteq> []"
  shows "\<exists>k c. (k, c) \<in> set cs \<and> (\<forall>kc\<in>set cs. snd kc \<le> c) \<and>
           (\<forall>kc\<in>set cs. snd kc = c \<longrightarrow> fst kc \<le> k) \<and>
           top_measurement_label_of self (Counts cs) = Inr (rev k)"
proof -
  let ?ps = "map (\<lambda>kc. (snd kc, fst kc)) cs"
  from assms have "?ps \<noteq> []" by simp
  from sort_last_max [OF this] obtain m ms where
    m: "rev (sort ?ps) = m # ms" "m \<in> set ?ps" "\<forall>x\<in>set ?ps. x \<le> m" by blast
  from m(2) have mem: "(snd m, fst m) \<in> set cs" by auto
  have le: "\<forall>kc\<in>set cs. snd kc \<le> fst m"
  proof
    fix kc assume "kc \<in> set cs"
    then have "(snd kc, fst kc) \<in> set ?ps" by auto
    with m(3) have "(snd kc, fst kc) \<le> m" by blast
    then show "snd kc \<le> fst m" by (cases m) (auto simp: less_eq_prod_def)
  qed
  have tie: "\<forall>kc\<in>set cs. snd kc = fst m \<longrightarrow> fst kc \<le> snd m"
  proof (intro ballI impI)
    fix kc assume kc: "kc \<in> set cs" and eq: "snd kc = fst m"
    from kc have "(snd kc, fst kc) \<in> set ?ps" by auto
    with m(3) have "(snd kc, fst kc) \<le> m" by blast
    with eq show "fst kc \<le> snd m" by (cases m) (auto simp: less_eq_prod_def)
  qed
  have "top_measurement_label_of self (Counts cs) = Inr (rev (snd m))"
    by (simp add: top_measurement_label_of_def m(1))
  with mem le tie show ?thesis by blast
qed

subsection \<open>The label in state-vector mode and the result of a run\<close>

lemma np_max_fold_real:
  "Im x = 0 \<Longrightarrow> \<forall>z\<in>set xs. Im z = 0 \<Longrightarrow>
   foldl (\<lambda>m y. if np_less m y then y else m) x xs =
   foldl (\<lambda>m y. if Re m < Re y then y else m) x xs"
  by (induction xs arbitrary: x) (auto simp: np_less_def)

lemma np_min_fold_real:
  "Im x = 0 \<Longrightarrow> \<forall>z\<in>set xs. Im z = 0 \<Longrightarrow>
   foldl (\<lambda>m y. if np_less y m then y else m) x xs =
   foldl (\<lambda>m y. if - Re m < - Re y then y else m) x xs"
  by (induction xs arbitrary: x) (auto simp: np_less_def)

lemma np_max_real:
  assumes "diag \<noteq> []" and "\<forall>z\<in>set diag. Im z = 0"
  shows "\<exists>hi. np_max diag = Inr hi \<and> hi \<in> set diag \<and> (\<forall>z\<in>set diag. Re z \<le> Re hi)"
proof -
  from assms(1) obtain x xs where d: "diag = x # xs" by (cases diag) auto
  let ?hi = "foldl (\<lambda>m y. if Re m < Re y then y else m) x xs"
  from assms(2) d have "np_max diag = Inr ?hi" by (simp add: np_max_fold_real)
  moreover have "?hi \<in> set diag" unfolding d by (rule foldl_max_mem)
  moreover have "\<forall>z\<in>set diag. Re z \<le> Re ?hi"
    unfolding d using foldl_max_ge [of _ x xs Re] by blast
  ultimately show ?thesis by blast
qed

lemma np_min_real:
  assumes "diag \<noteq> []" and "\<forall>z\<in>set diag. Im z = 0"
  shows "\<exists>lo. np_min diag = Inr lo \<and> lo \<in> set diag \<and> (\<forall>z\<in>set diag. Re lo \<le> Re z)"
proof -
  from assms(1) obtain x xs where d: "diag = x # xs" by (cases diag) auto
  let ?lo = "foldl (\<lambda>m y. if - Re m < - Re y then y else m) x xs"
  from assms(2) d have "np_min diag = Inr ?lo" by (simp add: np_min_fold_real)
  moreover have "?lo \<in> set diag" unfolding d by (rule foldl_max_mem)
  moreover have "\<forall>z\<in>set diag. Re ?lo \<le> Re z"
  proof
    fix z assume "z \<in> set diag"
    then have "z \<in> set (x # xs)" by (simp add: d)
    then have "- Re z \<le> - Re ?lo" by (rule foldl_max_ge [of z x xs "\<lambda>z. - Re z"])
    then show "Re ?lo \<le> Re z" by simp
  qed
  ultimately show ?thesis by blast
qed

lemma np_where_first_mem:
  "v \<in> set xs \<Longrightarrow>
   \<exists>k. np_where_first xs v i = Inr (i + k) \<and> k < length xs \<and> xs ! k = v \<and>
        (\<forall>j<k. xs ! j \<noteq> v)"
proof (induction xs arbitrary: i)
  case Nil
  then show ?case by simp
next
  case (Cons a as)
  show ?case
  proof (cases "a = v")
    case True
    then have "np_where_first (a # as) v i = Inr (i + 0)" by simp
    with True show ?thesis by fastforce
  next
    case False
    with Cons.prems have "v \<in> set as" by simp
    from Cons.IH [OF this, of "Suc i"] obtain k where
      k: "np_where_first as v (Suc i) = Inr (Suc i + k)" "k < length as" "as ! k = v"
         "\<forall>j<k. as ! j \<noteq> v" by blast
    from False k(1) have "np_where_first (a # as) v i = Inr (i + Suc k)" by simp
    moreover from k(2) have "Suc k < length (a # as)" by simp
    moreover from k(3) have "(a # as) ! Suc k = v" by simp
    moreover have "\<forall>j<Suc k. (a # as) ! j \<noteq> v"
    proof (intro allI impI)
      fix j assume "j < Suc k"
      then show "(a # as) ! j \<noteq> v" using False k(4) by (cases j) auto
    qed
    ultimately show ?thesis by blast
  qed
qed

lemma bin_str_bits: "list_all (\<lambda>c. c = CHR ''0'' \<or> c = CHR ''1'') (bin_str n)"
proof (induction n rule: bin_str.induct)
  case (1 n)
  show ?case
  proof (cases "n < 2")
    case True
    then show ?thesis by (subst bin_str.simps) simp
  next
    case False
    with "1.IH" have "list_all (\<lambda>c. c = CHR ''0'' \<or> c = CHR ''1'') (bin_str (n div 2))" by simp
    with False show ?thesis by (subst bin_str.simps) simp
  qed
qed

lemma replicate_zero_bits:
  "list_all (\<lambda>c. c = CHR ''0'' \<or> c = CHR ''1'') (replicate k CHR ''0'')"
  by (induction k) simp_all

lemma binary_repr_bits: "list_all (\<lambda>c. c = CHR ''0'' \<or> c = CHR ''1'') (binary_repr num width)"
proof (cases "num = 0")
  case True
  then have "binary_repr num width = replicate (nat (if width = 0 then 1 else width)) CHR ''0''"
    by (simp add: binary_repr_def)
  then show ?thesis by (simp only: replicate_zero_bits)
next
  case False
  then have "binary_repr num width =
      replicate (nat (width - int (length (bin_str num)))) CHR ''0'' @ bin_str num"
    by (simp only: binary_repr_def if_False)
  then show ?thesis
    by (simp only: list_all_append replicate_zero_bits bin_str_bits simp_thms)
qed

lemma top_measurement_label_of_Statevector:
  assumes "diag \<noteq> []" and "\<forall>z\<in>set diag. Im z = 0"
  shows "\<exists>idx. idx < length diag \<and> (\<forall>z\<in>set diag. cmod z \<le> cmod (diag ! idx)) \<and>
           (\<forall>j<idx. diag ! j \<noteq> diag ! idx) \<and>
           top_measurement_label_of self (Statevector diag) =
             Inr (rev (binary_repr idx (num_ancillae self)))"
proof -
  from np_min_real [OF assms] obtain lo where
    lo: "np_min diag = Inr lo" "lo \<in> set diag" "\<forall>z\<in>set diag. Re lo \<le> Re z" by blast
  from np_max_real [OF assms] obtain hi where
    hi: "np_max diag = Inr hi" "hi \<in> set diag" "\<forall>z\<in>set diag. Re z \<le> Re hi" by blast
  let ?v = "if cmod lo < cmod hi then hi else lo"
  have v_mem: "?v \<in> set diag" using lo(2) hi(2) by simp
  have re: "\<And>z. z \<in> set diag \<Longrightarrow> cmod z = \<bar>Re z\<bar>" using assms(2) by (simp add: cmod_eq_Re)
  have v_max: "\<forall>z\<in>set diag. cmod z \<le> cmod ?v"
  proof
    fix z assume z: "z \<in> set diag"
    with lo(3) hi(3) have "Re lo \<le> Re z" "Re z \<le> Re hi" by blast+
    then have "\<bar>Re z\<bar> \<le> max \<bar>Re lo\<bar> \<bar>Re hi\<bar>" by linarith
    then have "cmod z \<le> max (cmod lo) (cmod hi)" using re z lo(2) hi(2) by simp
    then show "cmod z \<le> cmod ?v" by (simp add: max_def split: if_splits)
  qed
  from np_where_first_mem [OF v_mem, of 0] obtain k where
    k: "np_where_first diag ?v 0 = Inr k" "k < length diag" "diag ! k = ?v"
       "\<forall>j<k. diag ! j \<noteq> ?v" by auto
  have "top_measurement_label_of self (Statevector diag) =
          Inr (rev (binary_repr k (num_ancillae self)))"
    using lo(1) hi(1) k(1) by (simp add: top_measurement_label_of_def Let_def)
  moreover have "\<forall>z\<in>set diag. cmod z \<le> cmod (diag ! k)" using v_max k(3) by simp
  moreover have "\<forall>j<k. diag ! j \<noteq> diag ! k" using k(3) k(4) by simp
  ultimately show ?thesis using k(2) by blast
qed

lemma top_measurement_label_of_Statevector_returns:
  assumes "diag \<noteq> []"
  shows "\<exists>idx. idx < length diag \<and>
           top_measurement_label_of self (Statevector diag) =
             Inr (rev (binary_repr idx (num_ancillae self)))"
proof -
  from assms obtain x xs where d: "diag = x # xs" by (cases diag) auto
  let ?lo = "foldl (\<lambda>m y. if np_less y m then y else m) x xs"
  let ?hi = "foldl (\<lambda>m y. if np_less m y then y else m) x xs"
  have lo: "?lo \<in> set diag" unfolding d by (induction xs arbitrary: x) auto
  have hi: "?hi \<in> set diag" unfolding d by (induction xs arbitrary: x) auto
  let ?v = "if cmod ?lo < cmod ?hi then ?hi else ?lo"
  have "?v \<in> set diag" using lo hi by simp
  from np_where_first_mem [OF this, of 0] obtain k where
    k: "np_where_first diag ?v 0 = Inr k" "k < length diag" by auto
  have "np_min diag = Inr ?lo" "np_max diag = Inr ?hi" by (simp_all add: d)
  then have "top_measurement_label_of self (Statevector diag) =
          Inr (rev (binary_repr k (num_ancillae self)))"
    using k(1) by (simp add: top_measurement_label_of_def Let_def)
  with k(2) show ?thesis by blast
qed

lemma QPE_compute_energy_Inr:
  assumes "top_measurement_label_of self ex = Inr label"
    and "top_measurement_decimal_of (binary_fractions self) label = Inr decimal"
    and "truediv decimal (stretch (ret self)) = Inr q"
  shows "QPE_compute_energy self ex =
     Inr \<lparr>translation = translation (ret self), stretch = stretch (ret self),
          top_measurement_label = label, top_measurement_decimal = decimal,
          eigvals = [float_sub q (translation (ret self))],
          energy = float_sub q (translation (ret self))\<rparr>"
  using assms by (simp add: QPE_compute_energy_def Let_def)

lemma QPE_compute_energy_InrD:
  assumes "QPE_compute_energy self ex = Inr r"
  shows "\<exists>q. truediv (top_measurement_decimal r) (stretch r) = Inr q \<and>
           eigvals r = [float_sub q (translation r)] \<and> energy r = float_sub q (translation r)"
    and "translation r = translation (ret self)"
    and "stretch r = stretch (ret self)"
    and "top_measurement_label_of self ex = Inr (top_measurement_label r)"
    and "top_measurement_decimal_of (binary_fractions self) (top_measurement_label r) =
           Inr (top_measurement_decimal r)"
  using assms
  by (auto simp: QPE_compute_energy_def Let_def split: sum.splits)

lemma bin_str_length_pos: "0 < length (bin_str n)"
  by (subst bin_str.simps) simp

lemma bin_str_length_le: "n < 2 ^ k \<Longrightarrow> 0 < k \<Longrightarrow> length (bin_str n) \<le> k"
proof (induction n arbitrary: k rule: bin_str.induct)
  case (1 n)
  show ?case
  proof (cases "n < 2")
    case True
    then have "length (bin_str n) = 1" by (subst bin_str.simps) simp
    with "1.prems" show ?thesis by simp
  next
    case False
    from "1.prems" obtain j where k: "k = Suc j" by (cases k) auto
    with "1.prems" have half: "n div 2 < 2 ^ j" by (simp add: less_mult_imp_div_less)
    have "0 < j"
    proof (rule ccontr)
      assume "\<not> 0 < j"
      with k "1.prems" have "n < 2" by simp
      with False show False by simp
    qed
    with "1.IH" [OF False half] have "length (bin_str (n div 2)) \<le> j" by simp
    moreover from False have "length (bin_str n) = Suc (length (bin_str (n div 2)))"
      by (subst bin_str.simps) simp
    ultimately show ?thesis using k by simp
  qed
qed

lemma bin_str_lt: "n < 2 ^ length (bin_str n)"
proof (induction n rule: bin_str.induct)
  case (1 n)
  show ?case
  proof (cases "n < 2")
    case True
    then have "length (bin_str n) = 1" by (subst bin_str.simps) simp
    with True show ?thesis by simp
  next
    case False
    with "1.IH" have "n div 2 < 2 ^ length (bin_str (n div 2))" by simp
    then have "n < 2 * 2 ^ length (bin_str (n div 2))" by linarith
    moreover from False have "length (bin_str n) = Suc (length (bin_str (n div 2)))"
      by (subst bin_str.simps) simp
    ultimately show ?thesis by simp
  qed
qed

text \<open>Character \<open>i\<close> from the right of \<open>bin_str n\<close> is bit \<open>i\<close> of \<open>n\<close>.\<close>

lemma rev_bin_str_nth:
  "i < length (bin_str n) \<Longrightarrow>
   rev (bin_str n) ! i = (if (n div 2 ^ i) mod 2 = 0 then CHR ''0'' else CHR ''1'')"
proof (induction n arbitrary: i rule: bin_str.induct)
  case (1 n)
  show ?case
  proof (cases "n < 2")
    case True
    then have b: "bin_str n = [if n = 0 then CHR ''0'' else CHR ''1'']"
      by (subst bin_str.simps) simp
    with "1.prems" have "i = 0" by simp
    with b True show ?thesis by auto
  next
    case False
    then have b: "rev (bin_str n) =
        (if n mod 2 = 0 then CHR ''0'' else CHR ''1'') # rev (bin_str (n div 2))"
      by (subst bin_str.simps) simp
    show ?thesis
    proof (cases i)
      case 0
      with b show ?thesis by simp
    next
      case (Suc j)
      from False have "length (bin_str n) = Suc (length (bin_str (n div 2)))"
        by (subst bin_str.simps) simp
      with "1.prems" Suc have j: "j < length (bin_str (n div 2))" by simp
      have "n div 2 ^ Suc j = (n div 2) div 2 ^ j" by (simp add: div_mult2_eq)
      with "1.IH" [OF False j] b Suc show ?thesis by simp
    qed
  qed
qed

lemma length_binary_repr:
  assumes "idx < 2 ^ nat na" and "1 \<le> na"
  shows "length (binary_repr idx na) = nat na"
proof (cases "idx = 0")
  case True
  with assms(2) show ?thesis by (simp add: binary_repr_def)
next
  case False
  from assms have "length (bin_str idx) \<le> nat na" by (intro bin_str_length_le) simp_all
  with False show ?thesis by (simp add: binary_repr_def)
qed

lemma rev_binary_repr_nth:
  assumes "idx < 2 ^ nat na" and "1 \<le> na" and "i < nat na"
  shows "rev (binary_repr idx na) ! i =
           (if (idx div 2 ^ i) mod 2 = 0 then CHR ''0'' else CHR ''1'')"
proof (cases "idx = 0")
  case True
  with assms show ?thesis by (simp add: binary_repr_def)
next
  case False
  let ?b = "bin_str idx"
  have r: "rev (binary_repr idx na) = rev ?b @ replicate (nat (na - int (length ?b))) CHR ''0''"
    using False by (simp add: binary_repr_def)
  show ?thesis
  proof (cases "i < length ?b")
    case True
    with r have "rev (binary_repr idx na) ! i = rev ?b ! i" by (simp add: nth_append)
    with True show ?thesis by (simp add: rev_bin_str_nth)
  next
    case ge: False
    from assms have "length ?b \<le> nat na" by (intro bin_str_length_le) simp_all
    with ge assms(3) have "i - length ?b < nat (na - int (length ?b))" by linarith
    with r ge have c: "rev (binary_repr idx na) ! i = CHR ''0''" by (simp add: nth_append)
    from ge have "(2::nat) ^ length ?b \<le> 2 ^ i" by (intro power_increasing) simp_all
    with bin_str_lt [of idx] have "idx < 2 ^ i" by linarith
    then have "idx div 2 ^ i = 0" by simp
    with c show ?thesis by simp
  qed
qed

subsection \<open>The estimated eigenvalue and the decoded fraction\<close>

lemma bitstring_rev_bits:
  "bitstring k \<Longrightarrow> list_all (\<lambda>c. c = CHR ''0'' \<or> c = CHR ''1'') (rev k)"
  by (simp add: bitstring_def list_all_iff)

text \<open>
  C2.  For an instance built by the constructor, whenever a run returns, the stored
  \<^verbatim>\<open>eigvals\<close> is the one-element list of the stored \<^verbatim>\<open>top_measurement_decimal\<close>
  divided by the stored \<^verbatim>\<open>stretch\<close> minus the stored \<^verbatim>\<open>translation\<close>, \<^verbatim>\<open>energy\<close>
  is that element, and translation and stretch are the constructor's: the sum of the
  moduli and 0.5 divided by it.  With a translation that is not zero this is the real
  number \<open>decimal / (0.5 / translation) - translation\<close>; with translation zero (which
  only numpy coefficients allow) the stretch is \<^verbatim>\<open>inf\<close> and the value is 0.  A run
  returns on every non-empty dict of counts whose keys are bitstrings and on every
  non-empty diagonal.
\<close>

theorem QPE_eigenvalue_inverse_affine:
  assumes "QPE_init pl nts na em eo = Inr self"
  shows "(\<forall>r. QPE_compute_energy self ex = Inr r \<longrightarrow>
            (\<exists>q. truediv (top_measurement_decimal r) (stretch r) = Inr q \<and>
                 eigvals r = [float_sub q (translation r)] \<and>
                 energy r = float_sub q (translation r)) \<and>
            translation r = sum_list (map (\<lambda>p. coefficient_abs (fst p)) pl) \<and>
            half_over (list_ex (\<lambda>p. is_numpy (fst p)) pl) (translation r) = Inr (stretch r) \<and>
            (translation r \<noteq> 0 \<longrightarrow>
               (stretch r = PyFloat (0.5 / translation r) \<or>
                stretch r = NpFloat (0.5 / translation r)) \<and>
               eigvals r =
                 [Finite (top_measurement_decimal r / (0.5 / translation r) - translation r)] \<and>
               energy r =
                 Finite (top_measurement_decimal r / (0.5 / translation r) - translation r)) \<and>
            (translation r = 0 \<longrightarrow>
               stretch r = NpInf \<and> eigvals r = [Finite 0] \<and> energy r = Finite 0)) \<and>
         (cs \<noteq> [] \<and> (\<forall>kc\<in>set cs. bitstring (fst kc)) \<longrightarrow>
            (\<exists>r. QPE_compute_energy self (Counts cs) = Inr r)) \<and>
         (diag \<noteq> [] \<longrightarrow> (\<exists>r. QPE_compute_energy self (Statevector diag) = Inr r))"
proof -
  note init = QPE_init_Inr [OF assms]
  let ?np = "list_ex (\<lambda>p. is_numpy (fst p)) pl"
  have a: "\<forall>r. QPE_compute_energy self ex = Inr r \<longrightarrow>
            (\<exists>q. truediv (top_measurement_decimal r) (stretch r) = Inr q \<and>
                 eigvals r = [float_sub q (translation r)] \<and>
                 energy r = float_sub q (translation r)) \<and>
            translation r = sum_list (map (\<lambda>p. coefficient_abs (fst p)) pl) \<and>
            half_over ?np (translation r) = Inr (stretch r) \<and>
            (translation r \<noteq> 0 \<longrightarrow>
               (stretch r = PyFloat (0.5 / translation r) \<or>
                stretch r = NpFloat (0.5 / translation r)) \<and>
               eigvals r =
                 [Finite (top_measurement_decimal r / (0.5 / translation r) - translation r)] \<and>
               energy r =
                 Finite (top_measurement_decimal r / (0.5 / translation r) - translation r)) \<and>
            (translation r = 0 \<longrightarrow>
               stretch r = NpInf \<and> eigvals r = [Finite 0] \<and> energy r = Finite 0)"
  proof (intro allI impI)
    fix r assume r: "QPE_compute_energy self ex = Inr r"
    note d = QPE_compute_energy_InrD [OF r]
    from d(1) obtain q where q: "truediv (top_measurement_decimal r) (stretch r) = Inr q"
      "eigvals r = [float_sub q (translation r)]" "energy r = float_sub q (translation r)"
      by blast
    from d(2) init(4) have tr: "translation r = sum_list (map (\<lambda>p. coefficient_abs (fst p)) pl)"
      by simp
    from init(5) d(2) d(3) have ho: "half_over ?np (translation r) = Inr (stretch r)" by simp
    from truediv_half_over [OF ho, of "top_measurement_decimal r"] q(1)
    have qv: "q = Finite (if translation r = 0 then 0
        else top_measurement_decimal r / (0.5 / translation r))" by simp
    have nz: "translation r \<noteq> 0 \<longrightarrow>
               (stretch r = PyFloat (0.5 / translation r) \<or>
                stretch r = NpFloat (0.5 / translation r)) \<and>
               eigvals r =
                 [Finite (top_measurement_decimal r / (0.5 / translation r) - translation r)] \<and>
               energy r =
                 Finite (top_measurement_decimal r / (0.5 / translation r) - translation r)"
    proof
      assume t: "translation r \<noteq> 0"
      from half_over_Inr(1) [OF ho t]
      have "stretch r = PyFloat (0.5 / translation r) \<or> stretch r = NpFloat (0.5 / translation r)"
        by (cases ?np) simp_all
      moreover from qv t have "q = Finite (top_measurement_decimal r / (0.5 / translation r))"
        by simp
      ultimately show "(stretch r = PyFloat (0.5 / translation r) \<or>
                stretch r = NpFloat (0.5 / translation r)) \<and>
               eigvals r =
                 [Finite (top_measurement_decimal r / (0.5 / translation r) - translation r)] \<and>
               energy r =
                 Finite (top_measurement_decimal r / (0.5 / translation r) - translation r)"
        using q(2) q(3) by simp
    qed
    have z: "translation r = 0 \<longrightarrow>
               stretch r = NpInf \<and> eigvals r = [Finite 0] \<and> energy r = Finite 0"
    proof
      assume t: "translation r = 0"
      from half_over_Inr(2) [OF ho t] have "stretch r = NpInf" by simp
      moreover from qv t have "q = Finite 0" by simp
      ultimately show "stretch r = NpInf \<and> eigvals r = [Finite 0] \<and> energy r = Finite 0"
        using q(2) q(3) t by simp
    qed
    from q tr ho nz z
    show "(\<exists>q. truediv (top_measurement_decimal r) (stretch r) = Inr q \<and>
                 eigvals r = [float_sub q (translation r)] \<and>
                 energy r = float_sub q (translation r)) \<and>
            translation r = sum_list (map (\<lambda>p. coefficient_abs (fst p)) pl) \<and>
            half_over ?np (translation r) = Inr (stretch r) \<and>
            (translation r \<noteq> 0 \<longrightarrow>
               (stretch r = PyFloat (0.5 / translation r) \<or>
                stretch r = NpFloat (0.5 / translation r)) \<and>
               eigvals r =
                 [Finite (top_measurement_decimal r / (0.5 / translation r) - translation r)] \<and>
               energy r =
                 Finite (top_measurement_decimal r / (0.5 / translation r) - translation r)) \<and>
            (translation r = 0 \<longrightarrow>
               stretch r = NpInf \<and> eigvals r = [Finite 0] \<and> energy r = Finite 0)"
      by blast
  qed
  have b: "cs \<noteq> [] \<and> (\<forall>kc\<in>set cs. bitstring (fst kc)) \<longrightarrow>
            (\<exists>r. QPE_compute_energy self (Counts cs) = Inr r)"
  proof
    assume h: "cs \<noteq> [] \<and> (\<forall>kc\<in>set cs. bitstring (fst kc))"
    then have ne: "cs \<noteq> []" by blast
    from top_measurement_label_of_Counts [OF ne, of self] obtain k c where
      k: "(k, c) \<in> set cs" "top_measurement_label_of self (Counts cs) = Inr (rev k)" by blast
    from h k(1) have "bitstring k" by fastforce
    then have bits: "list_all (\<lambda>c. c = CHR ''0'' \<or> c = CHR ''1'') (rev k)"
      by (rule bitstring_rev_bits)
    from top_measurement_decimal_of_bits [OF bits, of na] init(3)
    obtain dec where dec: "top_measurement_decimal_of (binary_fractions self) (rev k) = Inr dec"
      by simp
    note q = truediv_half_over [OF init(5), of dec]
    from QPE_compute_energy_Inr [OF k(2) dec q]
    show "\<exists>r. QPE_compute_energy self (Counts cs) = Inr r" by blast
  qed
  have c: "diag \<noteq> [] \<longrightarrow> (\<exists>r. QPE_compute_energy self (Statevector diag) = Inr r)"
  proof
    assume ne: "diag \<noteq> []"
    from top_measurement_label_of_Statevector_returns [OF ne, of self] obtain idx where
      l: "top_measurement_label_of self (Statevector diag) =
            Inr (rev (binary_repr idx (num_ancillae self)))" by blast
    have bits: "list_all (\<lambda>c. c = CHR ''0'' \<or> c = CHR ''1'')
        (rev (binary_repr idx (num_ancillae self)))"
      using binary_repr_bits [of idx "num_ancillae self"] by (simp add: list_all_iff)
    from top_measurement_decimal_of_bits [OF bits, of na] init(3)
    obtain dec where dec: "top_measurement_decimal_of (binary_fractions self)
        (rev (binary_repr idx (num_ancillae self))) = Inr dec" by simp
    note q = truediv_half_over [OF init(5), of dec]
    from QPE_compute_energy_Inr [OF l dec q]
    show "\<exists>r. QPE_compute_energy self (Statevector diag) = Inr r" by blast
  qed
  from a b c show ?thesis by blast
qed

theorem QPE_eigenvalue_inverse_affine_witness:
  "QPE_init [(PyNum 2, ''X''), (PyNum (- 2), ''Z'')] 1 3 ''trotter'' 1 =
     Inr \<lparr>num_ancillae = 3, ret = \<lparr>translation = 4, stretch = PyFloat (1 / 8)\<rparr>,
          binary_fractions = QPE_binary_fractions 3\<rparr> \<and>
   QPE_compute_energy
     \<lparr>num_ancillae = 3, ret = \<lparr>translation = 4, stretch = PyFloat (1 / 8)\<rparr>,
      binary_fractions = QPE_binary_fractions 3\<rparr>
     (Counts [(''110'', 5), (''011'', 7), (''001'', 7)]) =
     Inr \<lparr>translation = 4, stretch = PyFloat (1 / 8), top_measurement_label = ''110'',
          top_measurement_decimal = 3 / 4, eigvals = [Finite 2], energy = Finite 2\<rparr> \<and>
   (4 :: real) \<noteq> 0 \<and>
   [Finite 2] = [Finite ((3 / 4) / (0.5 / 4) - 4)]"
proof -
  let ?self = "\<lparr>num_ancillae = 3, ret = \<lparr>translation = 4, stretch = PyFloat (1 / 8)\<rparr>,
      binary_fractions = QPE_binary_fractions 3\<rparr>"
  let ?r = "\<lparr>translation = 4, stretch = PyFloat (1 / 8), top_measurement_label = ''110'',
          top_measurement_decimal = 3 / 4, eigvals = [Finite 2], energy = Finite 2\<rparr>"
  have init: "QPE_init [(PyNum 2, ''X''), (PyNum (- 2), ''Z'')] 1 3 ''trotter'' 1 = Inr ?self"
    by (simp add: QPE_init_valid half_over_def)
  have label: "top_measurement_label_of ?self (Counts [(''110'', 5), (''011'', 7), (''001'', 7)]) =
      Inr ''110''"
    by (simp add: top_measurement_label_of_def)
  have dec: "top_measurement_decimal_of (binary_fractions ?self) ''110'' = Inr (3 / 4)"
    by (simp add: top_measurement_decimal_of_def QPE_binary_fractions_def upto.simps
        py_int_def py_strip_def py_isspace_def is_digit_def digit_val_def)
  have q: "truediv (3 / 4) (stretch (ret ?self)) = Inr (Finite 6)"
    by (simp add: truediv_def)
  have run: "QPE_compute_energy ?self (Counts [(''110'', 5), (''011'', 7), (''001'', 7)]) = Inr ?r"
    using QPE_compute_energy_Inr [OF label dec q] by simp
  have nz: "translation ?r \<noteq> 0" by simp
  from QPE_eigenvalue_inverse_affine [OF init] run nz
  have "eigvals ?r =
      [Finite (top_measurement_decimal ?r / (0.5 / translation ?r) - translation ?r)]"
    by blast
  then have e: "[Finite 2] = [Finite ((3 / 4) / (0.5 / 4) - 4)]"
    by (simp only: ret_run.simps ret_init.simps)
  have "(4 :: real) \<noteq> 0" by simp
  with init run e show ?thesis by blast
qed

lemma QPE_compute_energy_returns:
  assumes "top_measurement_label_of self ex = Inr label"
    and "top_measurement_decimal_of (binary_fractions self) label = Inr decimal"
    and "truediv decimal (stretch (ret self)) = Inr q"
  shows "\<exists>r. QPE_compute_energy self ex = Inr r \<and> top_measurement_label r = label \<and>
           top_measurement_decimal r = decimal"
  using QPE_compute_energy_Inr [OF assms] by simp

lemma bit_of_bit_char: "bit_of (if b mod 2 = (0::nat) then CHR ''0'' else CHR ''1'') = int (b mod 2)"
proof (cases "b mod 2 = 0")
  case True
  then show ?thesis by (simp add: bit_of_def)
next
  case False
  then have "b mod 2 = 1" by presburger
  then show ?thesis by (simp add: bit_of_def)
qed

text \<open>
  C3.  For an instance built by the constructor with \<open>na\<close> ancillae.  In counts mode, on
  a non-empty dict whose keys are bitstrings of \<open>na\<close> bits, the label is the reversed key
  of an entry with the highest count.  In state-vector mode, on a real diagonal of
  \<open>2 ^ na\<close> entries, the label is the reversed \<^verbatim>\<open>binary_repr\<close>, of width \<open>na\<close>, of
  the first index \<open>idx\<close> holding an entry of maximum modulus: its character \<open>i\<close> is bit
  \<open>i\<close> of \<open>idx\<close>, least significant first.  In both modes the run returns, the label
  has \<open>na\<close> characters, and the decimal is the sum over \<open>i = 1, \<dots>, na\<close> of the \<open>i\<close>-th
  bit of the label divided by \<open>2 ^ i\<close>.
\<close>

theorem QPE_top_measurement_decoding:
  assumes "QPE_init pl nts na em eo = Inr self"
  shows "(cs \<noteq> [] \<and> (\<forall>kc\<in>set cs. bitstring (fst kc) \<and> length (fst kc) = nat na) \<longrightarrow>
            (\<exists>k c r. (k, c) \<in> set cs \<and> (\<forall>kc\<in>set cs. snd kc \<le> c) \<and>
               QPE_compute_energy self (Counts cs) = Inr r \<and>
               top_measurement_label r = rev k \<and>
               length (top_measurement_label r) = nat na \<and>
               top_measurement_decimal r =
                 (\<Sum>i = 1..nat na.
                    real_of_int (bit_of (top_measurement_label r ! (i - 1))) / 2 ^ i))) \<and>
         (length diag = 2 ^ nat na \<and> (\<forall>z\<in>set diag. Im z = 0) \<longrightarrow>
            (\<exists>idx r. idx < length diag \<and> (\<forall>z\<in>set diag. cmod z \<le> cmod (diag ! idx)) \<and>
               (\<forall>j<idx. diag ! j \<noteq> diag ! idx) \<and>
               QPE_compute_energy self (Statevector diag) = Inr r \<and>
               top_measurement_label r = rev (binary_repr idx na) \<and>
               length (top_measurement_label r) = nat na \<and>
               (\<forall>i<nat na. top_measurement_label r ! i =
                  (if (idx div 2 ^ i) mod 2 = 0 then CHR ''0'' else CHR ''1'')) \<and>
               top_measurement_decimal r =
                 (\<Sum>i = 1..nat na.
                    real_of_int (bit_of (top_measurement_label r ! (i - 1))) / 2 ^ i) \<and>
               top_measurement_decimal r =
                 (\<Sum>i = 1..nat na. real ((idx div 2 ^ (i - 1)) mod 2) / 2 ^ i)))"
proof -
  note init = QPE_init_Inr [OF assms]
  have counts: "cs \<noteq> [] \<and> (\<forall>kc\<in>set cs. bitstring (fst kc) \<and> length (fst kc) = nat na) \<longrightarrow>
            (\<exists>k c r. (k, c) \<in> set cs \<and> (\<forall>kc\<in>set cs. snd kc \<le> c) \<and>
               QPE_compute_energy self (Counts cs) = Inr r \<and>
               top_measurement_label r = rev k \<and>
               length (top_measurement_label r) = nat na \<and>
               top_measurement_decimal r =
                 (\<Sum>i = 1..nat na.
                    real_of_int (bit_of (top_measurement_label r ! (i - 1))) / 2 ^ i))"
  proof
    assume h: "cs \<noteq> [] \<and> (\<forall>kc\<in>set cs. bitstring (fst kc) \<and> length (fst kc) = nat na)"
    then have ne: "cs \<noteq> []" by blast
    from top_measurement_label_of_Counts [OF ne, of self] obtain k c where
      k: "(k, c) \<in> set cs" "\<forall>kc\<in>set cs. snd kc \<le> c"
         "top_measurement_label_of self (Counts cs) = Inr (rev k)" by blast
    from h k(1) have bk: "bitstring k" and len: "length k = nat na" by fastforce+
    from bk have bits: "list_all (\<lambda>c. c = CHR ''0'' \<or> c = CHR ''1'') (rev k)"
      by (rule bitstring_rev_bits)
    have dec: "top_measurement_decimal_of (binary_fractions self) (rev k) =
        Inr (\<Sum>i = 1..nat na. real_of_int (bit_of (rev k ! (i - 1))) / 2 ^ i)"
      using top_measurement_decimal_of_bits [OF bits, of na] init(3) len by simp
    note q = truediv_half_over [OF init(5)]
    from QPE_compute_energy_returns [OF k(3) dec q] obtain r where
      r: "QPE_compute_energy self (Counts cs) = Inr r" "top_measurement_label r = rev k"
        "top_measurement_decimal r =
           (\<Sum>i = 1..nat na. real_of_int (bit_of (rev k ! (i - 1))) / 2 ^ i)" by blast
    show "\<exists>k c r. (k, c) \<in> set cs \<and> (\<forall>kc\<in>set cs. snd kc \<le> c) \<and>
               QPE_compute_energy self (Counts cs) = Inr r \<and>
               top_measurement_label r = rev k \<and>
               length (top_measurement_label r) = nat na \<and>
               top_measurement_decimal r =
                 (\<Sum>i = 1..nat na.
                    real_of_int (bit_of (top_measurement_label r ! (i - 1))) / 2 ^ i)"
    proof (rule exI [of _ k], rule exI [of _ c], rule exI [of _ r], intro conjI)
      show "(k, c) \<in> set cs" by (rule k(1))
      show "\<forall>kc\<in>set cs. snd kc \<le> c" by (rule k(2))
      show "QPE_compute_energy self (Counts cs) = Inr r" by (rule r(1))
      show "top_measurement_label r = rev k" by (rule r(2))
      show "length (top_measurement_label r) = nat na" by (simp add: r(2) len)
      show "top_measurement_decimal r =
          (\<Sum>i = 1..nat na. real_of_int (bit_of (top_measurement_label r ! (i - 1))) / 2 ^ i)"
        by (simp only: r(2) r(3))
    qed
  qed
  have sv: "length diag = 2 ^ nat na \<and> (\<forall>z\<in>set diag. Im z = 0) \<longrightarrow>
            (\<exists>idx r. idx < length diag \<and> (\<forall>z\<in>set diag. cmod z \<le> cmod (diag ! idx)) \<and>
               (\<forall>j<idx. diag ! j \<noteq> diag ! idx) \<and>
               QPE_compute_energy self (Statevector diag) = Inr r \<and>
               top_measurement_label r = rev (binary_repr idx na) \<and>
               length (top_measurement_label r) = nat na \<and>
               (\<forall>i<nat na. top_measurement_label r ! i =
                  (if (idx div 2 ^ i) mod 2 = 0 then CHR ''0'' else CHR ''1'')) \<and>
               top_measurement_decimal r =
                 (\<Sum>i = 1..nat na.
                    real_of_int (bit_of (top_measurement_label r ! (i - 1))) / 2 ^ i) \<and>
               top_measurement_decimal r =
                 (\<Sum>i = 1..nat na. real ((idx div 2 ^ (i - 1)) mod 2) / 2 ^ i))"
  proof
    assume h: "length diag = 2 ^ nat na \<and> (\<forall>z\<in>set diag. Im z = 0)"
    then have dlen: "length diag = 2 ^ nat na" and real: "\<forall>z\<in>set diag. Im z = 0" by blast+
    from dlen have ne: "diag \<noteq> []" by auto
    from top_measurement_label_of_Statevector [OF ne real, of self] obtain idx where
      idx: "idx < length diag" "\<forall>z\<in>set diag. cmod z \<le> cmod (diag ! idx)"
        "\<forall>j<idx. diag ! j \<noteq> diag ! idx"
        "top_measurement_label_of self (Statevector diag) =
           Inr (rev (binary_repr idx (num_ancillae self)))" by blast
    let ?l = "rev (binary_repr idx na)"
    from idx(1) dlen have small: "idx < 2 ^ nat na" by simp
    have llen: "length ?l = nat na" using length_binary_repr [OF small init(1)] by simp
    have nth: "\<forall>i<nat na. ?l ! i = (if (idx div 2 ^ i) mod 2 = 0 then CHR ''0'' else CHR ''1'')"
      using rev_binary_repr_nth [OF small init(1)] by blast
    have lab: "top_measurement_label_of self (Statevector diag) = Inr ?l"
      using idx(4) init(2) by simp
    have bits: "list_all (\<lambda>c. c = CHR ''0'' \<or> c = CHR ''1'') ?l"
      using binary_repr_bits [of idx na] by (simp add: list_all_iff)
    have dec: "top_measurement_decimal_of (binary_fractions self) ?l =
        Inr (\<Sum>i = 1..nat na. real_of_int (bit_of (?l ! (i - 1))) / 2 ^ i)"
      using top_measurement_decimal_of_bits [OF bits, of na] init(3) llen by simp
    have closed: "(\<Sum>i = 1..nat na. real_of_int (bit_of (?l ! (i - 1))) / 2 ^ i) =
        (\<Sum>i = 1..nat na. real ((idx div 2 ^ (i - 1)) mod 2) / 2 ^ i)"
    proof (rule sum.cong)
      fix i assume "i \<in> {1..nat na}"
      then have "i - 1 < nat na" by auto
      with nth have "?l ! (i - 1) =
          (if (idx div 2 ^ (i - 1)) mod 2 = 0 then CHR ''0'' else CHR ''1'')" by blast
      then have "bit_of (?l ! (i - 1)) = int ((idx div 2 ^ (i - 1)) mod 2)"
        by (simp only: bit_of_bit_char)
      then show "real_of_int (bit_of (?l ! (i - 1))) / 2 ^ i =
          real ((idx div 2 ^ (i - 1)) mod 2) / 2 ^ i" by simp
    qed simp
    note q = truediv_half_over [OF init(5)]
    from QPE_compute_energy_returns [OF lab dec q] obtain r where
      r: "QPE_compute_energy self (Statevector diag) = Inr r" "top_measurement_label r = ?l"
        "top_measurement_decimal r =
           (\<Sum>i = 1..nat na. real_of_int (bit_of (?l ! (i - 1))) / 2 ^ i)" by blast
    show "\<exists>idx r. idx < length diag \<and> (\<forall>z\<in>set diag. cmod z \<le> cmod (diag ! idx)) \<and>
               (\<forall>j<idx. diag ! j \<noteq> diag ! idx) \<and>
               QPE_compute_energy self (Statevector diag) = Inr r \<and>
               top_measurement_label r = rev (binary_repr idx na) \<and>
               length (top_measurement_label r) = nat na \<and>
               (\<forall>i<nat na. top_measurement_label r ! i =
                  (if (idx div 2 ^ i) mod 2 = 0 then CHR ''0'' else CHR ''1'')) \<and>
               top_measurement_decimal r =
                 (\<Sum>i = 1..nat na.
                    real_of_int (bit_of (top_measurement_label r ! (i - 1))) / 2 ^ i) \<and>
               top_measurement_decimal r =
                 (\<Sum>i = 1..nat na. real ((idx div 2 ^ (i - 1)) mod 2) / 2 ^ i)"
    proof (rule exI [of _ idx], rule exI [of _ r], intro conjI)
      show "idx < length diag" by (rule idx(1))
      show "\<forall>z\<in>set diag. cmod z \<le> cmod (diag ! idx)" by (rule idx(2))
      show "\<forall>j<idx. diag ! j \<noteq> diag ! idx" by (rule idx(3))
      show "QPE_compute_energy self (Statevector diag) = Inr r" by (rule r(1))
      show "top_measurement_label r = ?l" by (rule r(2))
      show "length (top_measurement_label r) = nat na" by (simp only: r(2) llen)
      show "\<forall>i<nat na. top_measurement_label r ! i =
          (if (idx div 2 ^ i) mod 2 = 0 then CHR ''0'' else CHR ''1'')"
        using nth by (simp only: r(2))
      show "top_measurement_decimal r =
          (\<Sum>i = 1..nat na. real_of_int (bit_of (top_measurement_label r ! (i - 1))) / 2 ^ i)"
        by (simp only: r(2) r(3))
      show "top_measurement_decimal r =
          (\<Sum>i = 1..nat na. real ((idx div 2 ^ (i - 1)) mod 2) / 2 ^ i)"
        by (simp only: r(3) closed)
    qed
  qed
  from counts sv show ?thesis by blast
qed

theorem QPE_top_measurement_decoding_witness:
  "[(''110'', 5), (''011'', 7), (''001'', 7 :: int)] \<noteq> [] \<and>
   bitstring ''110'' \<and> bitstring ''011'' \<and> bitstring ''001'' \<and>
   length ''110'' = nat 3 \<and> length ''011'' = nat 3 \<and> length ''001'' = nat 3 \<and>
   QPE_compute_energy
     \<lparr>num_ancillae = 3, ret = \<lparr>translation = 4, stretch = PyFloat (1 / 8)\<rparr>,
      binary_fractions = QPE_binary_fractions 3\<rparr>
     (Counts [(''110'', 5), (''011'', 7), (''001'', 7)]) =
     Inr \<lparr>translation = 4, stretch = PyFloat (1 / 8), top_measurement_label = rev ''011'',
          top_measurement_decimal = 3 / 4, eigvals = [Finite 2], energy = Finite 2\<rparr> \<and>
   (3 / 4 :: real) =
     (\<Sum>i = 1..nat 3. real_of_int (bit_of (''110'' ! (i - 1))) / 2 ^ i) \<and>
   length [1 / 4, 1 / 2, 1 / 8, 1 / 8 :: complex] = 2 ^ nat 2 \<and>
   Im (1 / 4) = 0 \<and> Im (1 / 2) = 0 \<and> Im (1 / 8) = 0 \<and>
   QPE_compute_energy
     \<lparr>num_ancillae = 2, ret = \<lparr>translation = 4, stretch = PyFloat (1 / 8)\<rparr>,
      binary_fractions = QPE_binary_fractions 2\<rparr>
     (Statevector [1 / 4, 1 / 2, 1 / 8, 1 / 8]) =
     Inr \<lparr>translation = 4, stretch = PyFloat (1 / 8),
          top_measurement_label = rev (binary_repr 1 2),
          top_measurement_decimal = 1 / 2, eigvals = [Finite 0], energy = Finite 0\<rparr> \<and>
   rev (binary_repr 1 2) = ''10'' \<and>
   (1 / 2 :: real) =
     (\<Sum>i = 1..nat 2. real_of_int (bit_of (''10'' ! (i - 1))) / 2 ^ i)"
proof -
  let ?cs = "[(''110'', 5), (''011'', 7), (''001'', 7 :: int)]"
  let ?diag = "[1 / 4, 1 / 2, 1 / 8, 1 / 8 :: complex]"
  let ?self3 = "\<lparr>num_ancillae = 3, ret = \<lparr>translation = 4, stretch = PyFloat (1 / 8)\<rparr>,
      binary_fractions = QPE_binary_fractions 3\<rparr>"
  let ?self2 = "\<lparr>num_ancillae = 2, ret = \<lparr>translation = 4, stretch = PyFloat (1 / 8)\<rparr>,
      binary_fractions = QPE_binary_fractions 2\<rparr>"
  let ?r3 = "\<lparr>translation = 4, stretch = PyFloat (1 / 8), top_measurement_label = ''110'',
          top_measurement_decimal = 3 / 4, eigvals = [Finite 2], energy = Finite 2\<rparr>"
  let ?r2 = "\<lparr>translation = 4, stretch = PyFloat (1 / 8), top_measurement_label = ''10'',
          top_measurement_decimal = 1 / 2, eigvals = [Finite 0], energy = Finite 0\<rparr>"
  have init3: "QPE_init [(PyNum 2, ''X''), (PyNum (- 2), ''Z'')] 1 3 ''trotter'' 1 = Inr ?self3"
    by (simp add: QPE_init_valid half_over_def)
  have init2: "QPE_init [(PyNum 2, ''X''), (PyNum (- 2), ''Z'')] 1 2 ''trotter'' 1 = Inr ?self2"
    by (simp add: QPE_init_valid half_over_def)
  have ne: "?cs \<noteq> []" by simp
  have bs: "bitstring ''110'' \<and> bitstring ''011'' \<and> bitstring ''001''"
    by (simp add: bitstring_def)
  have ls: "length ''110'' = nat 3 \<and> length ''011'' = nat 3 \<and> length ''001'' = nat 3"
    by simp
  from bs ls have keys: "\<forall>kc\<in>set ?cs. bitstring (fst kc) \<and> length (fst kc) = nat 3" by simp
  have label3: "top_measurement_label_of ?self3 (Counts ?cs) = Inr ''110''"
    by (simp add: top_measurement_label_of_def)
  have dec3: "top_measurement_decimal_of (binary_fractions ?self3) ''110'' = Inr (3 / 4)"
    by (simp add: top_measurement_decimal_of_def QPE_binary_fractions_def upto.simps
        py_int_def py_strip_def py_isspace_def is_digit_def digit_val_def)
  have q3: "truediv (3 / 4) (stretch (ret ?self3)) = Inr (Finite 6)"
    by (simp add: truediv_def)
  have run3: "QPE_compute_energy ?self3 (Counts ?cs) = Inr ?r3"
    using QPE_compute_energy_Inr [OF label3 dec3 q3] by simp
  from QPE_top_measurement_decoding [OF init3, of ?cs] ne keys obtain r where
    r3: "QPE_compute_energy ?self3 (Counts ?cs) = Inr r"
      "top_measurement_decimal r =
         (\<Sum>i = 1..nat 3. real_of_int (bit_of (top_measurement_label r ! (i - 1))) / 2 ^ i)"
    by blast
  from r3(1) run3 have "r = ?r3" by simp
  with r3(2) have s3: "(3 / 4 :: real) =
     (\<Sum>i = 1..nat 3. real_of_int (bit_of (''110'' ! (i - 1))) / 2 ^ i)"
    by (simp only: ret_run.simps ret_init.simps)
  have dlen: "length ?diag = 2 ^ nat 2" by simp
  have im: "Im (1 / 4) = 0 \<and> Im (1 / 2) = 0 \<and> Im (1 / 8) = 0" by simp
  then have real: "\<forall>z\<in>set ?diag. Im z = 0" by simp
  have b1: "bin_str (Suc 0) = ''1''" by (subst bin_str.simps) simp
  have b12: "binary_repr (Suc 0) 2 = ''01''"
    by (simp add: binary_repr_def b1)
  have label2: "top_measurement_label_of ?self2 (Statevector ?diag) = Inr ''10''"
    by (simp add: top_measurement_label_of_def np_less_def b12)
  have dec2: "top_measurement_decimal_of (binary_fractions ?self2) ''10'' = Inr (1 / 2)"
    by (simp add: top_measurement_decimal_of_def QPE_binary_fractions_def upto.simps
        py_int_def py_strip_def py_isspace_def is_digit_def digit_val_def)
  have q2: "truediv (1 / 2) (stretch (ret ?self2)) = Inr (Finite 4)"
    by (simp add: truediv_def)
  have run2: "QPE_compute_energy ?self2 (Statevector ?diag) = Inr ?r2"
    using QPE_compute_energy_Inr [OF label2 dec2 q2] by simp
  from QPE_top_measurement_decoding [OF init2, of _ ?diag] dlen real obtain r' where
    r2: "QPE_compute_energy ?self2 (Statevector ?diag) = Inr r'"
      "top_measurement_decimal r' =
         (\<Sum>i = 1..nat 2. real_of_int (bit_of (top_measurement_label r' ! (i - 1))) / 2 ^ i)"
    by blast
  from r2(1) run2 have "r' = ?r2" by simp
  with r2(2) have s2: "(1 / 2 :: real) =
     (\<Sum>i = 1..nat 2. real_of_int (bit_of (''10'' ! (i - 1))) / 2 ^ i)"
    by (simp only: ret_run.simps ret_init.simps)
  have r12: "rev (binary_repr 1 2) = ''10''" using b12 by simp
  have run3': "QPE_compute_energy ?self3 (Counts ?cs) =
     Inr \<lparr>translation = 4, stretch = PyFloat (1 / 8), top_measurement_label = rev ''011'',
          top_measurement_decimal = 3 / 4, eigvals = [Finite 2], energy = Finite 2\<rparr>"
    using run3 by simp
  have run2': "QPE_compute_energy ?self2 (Statevector ?diag) =
     Inr \<lparr>translation = 4, stretch = PyFloat (1 / 8),
          top_measurement_label = rev (binary_repr 1 2),
          top_measurement_decimal = 1 / 2, eigvals = [Finite 0], energy = Finite 0\<rparr>"
    using run2 by (simp only: r12)
  from ne bs ls run3' s3 dlen im run2' r12 s2 show ?thesis by blast
qed

text \<open>
  C6.  A label that consists of zeros only decodes to the decimal 0: for an instance
  built by the constructor (so with at least one ancilla), a run whose label is all
  zeros returns with decimal 0; counts with the single key of \<open>na\<close> zeros give that
  label; and the sum of line 213 is 0 on a label of zeros whatever the fractions are.
\<close>

theorem QPE_all_zero_decimal:
  assumes "QPE_init pl nts na em eo = Inr self"
  shows "1 \<le> na \<and>
         top_measurement_label_of self (Counts [(replicate (nat na) CHR ''0'', shots)]) =
           Inr (replicate (nat na) CHR ''0'') \<and>
         (\<exists>r. QPE_compute_energy self (Counts [(replicate (nat na) CHR ''0'', shots)]) = Inr r \<and>
              top_measurement_label r = replicate (nat na) CHR ''0'' \<and>
              top_measurement_decimal r = 0) \<and>
         (top_measurement_label_of self ex = Inr label \<and> all_zero label \<longrightarrow>
            (\<exists>r. QPE_compute_energy self ex = Inr r \<and> top_measurement_label r = label \<and>
                 top_measurement_decimal r = 0)) \<and>
         top_measurement_decimal_of fractions (replicate m CHR ''0'') = Inr 0"
proof -
  note init = QPE_init_Inr [OF assms]
  have gen: "\<And>ex label. top_measurement_label_of self ex = Inr label \<Longrightarrow> all_zero label \<Longrightarrow>
      \<exists>r. QPE_compute_energy self ex = Inr r \<and> top_measurement_label r = label \<and>
           top_measurement_decimal r = 0"
  proof -
    fix ex label
    assume l: "top_measurement_label_of self ex = Inr label" and z: "all_zero label"
    from z have "replicate (length label) CHR ''0'' = label"
      by (intro replicate_length_same) (simp add: all_zero_def list_all_iff)
    then have d: "top_measurement_decimal_of (binary_fractions self) label = Inr 0"
      using top_measurement_decimal_of_zeros [of "binary_fractions self" "length label"] by simp
    note q = truediv_half_over [OF init(5)]
    from QPE_compute_energy_returns [OF l d q]
    show "\<exists>r. QPE_compute_energy self ex = Inr r \<and> top_measurement_label r = label \<and>
           top_measurement_decimal r = 0" .
  qed
  have single: "top_measurement_label_of self (Counts [(replicate (nat na) CHR ''0'', shots)]) =
           Inr (replicate (nat na) CHR ''0'')"
    by (simp add: top_measurement_label_of_def)
  have az: "all_zero (replicate (nat na) CHR ''0'')" by (simp add: all_zero_def list_all_iff)
  note run = gen [OF single az]
  have any: "top_measurement_label_of self ex = Inr label \<and> all_zero label \<longrightarrow>
            (\<exists>r. QPE_compute_energy self ex = Inr r \<and> top_measurement_label r = label \<and>
                 top_measurement_decimal r = 0)"
    using gen [of ex label] by blast
  from init(1) single run any top_measurement_decimal_of_zeros [of fractions m]
  show ?thesis by blast
qed

theorem QPE_all_zero_decimal_witness:
  "QPE_init [(PyNum 2, ''X''), (PyNum (- 2), ''Z'')] 1 3 ''trotter'' 1 =
     Inr \<lparr>num_ancillae = 3, ret = \<lparr>translation = 4, stretch = PyFloat (1 / 8)\<rparr>,
          binary_fractions = QPE_binary_fractions 3\<rparr> \<and>
   (1 :: int) \<le> 3 \<and>
   QPE_compute_energy
     \<lparr>num_ancillae = 3, ret = \<lparr>translation = 4, stretch = PyFloat (1 / 8)\<rparr>,
      binary_fractions = QPE_binary_fractions 3\<rparr>
     (Counts [(''000'', 1024)]) =
     Inr \<lparr>translation = 4, stretch = PyFloat (1 / 8), top_measurement_label = ''000'',
          top_measurement_decimal = 0, eigvals = [Finite (- 4)], energy = Finite (- 4)\<rparr> \<and>
   top_measurement_decimal_of [1 / 2, 1 / 4, 1 / 8] ''000'' = Inr 0"
proof -
  let ?self = "\<lparr>num_ancillae = 3, ret = \<lparr>translation = 4, stretch = PyFloat (1 / 8)\<rparr>,
      binary_fractions = QPE_binary_fractions 3\<rparr>"
  have init: "QPE_init [(PyNum 2, ''X''), (PyNum (- 2), ''Z'')] 1 3 ''trotter'' 1 = Inr ?self"
    by (simp add: QPE_init_valid half_over_def)
  have zs: "replicate (nat 3) CHR ''0'' = ''000''" by (simp add: eval_nat_numeral)
  have zs': "replicate 3 CHR ''0'' = ''000''" by (simp add: eval_nat_numeral)
  note t = QPE_all_zero_decimal [OF init, of 1024 _ _ "[1 / 2, 1 / 4, 1 / 8]" 3]
  from t have na: "(1 :: int) \<le> 3" by blast
  from t obtain r where r: "QPE_compute_energy ?self (Counts [(''000'', 1024)]) = Inr r"
    "top_measurement_label r = ''000''" "top_measurement_decimal r = 0"
    unfolding zs by blast
  note d = QPE_compute_energy_InrD [OF r(1)]
  from d(1) obtain q where q: "truediv (top_measurement_decimal r) (stretch r) = Inr q"
    "eigvals r = [float_sub q (translation r)]" "energy r = float_sub q (translation r)"
    by blast
  from d(2) d(3) have ts: "translation r = 4" "stretch r = PyFloat (1 / 8)" by simp_all
  from q(1) r(3) ts have "q = Finite 0" by (simp add: truediv_def)
  with q(2) q(3) ts have "eigvals r = [Finite (- 4)]" "energy r = Finite (- 4)" by simp_all
  with ts r(2) r(3)
  have "r = \<lparr>translation = 4, stretch = PyFloat (1 / 8), top_measurement_label = ''000'',
          top_measurement_decimal = 0, eigvals = [Finite (- 4)], energy = Finite (- 4)\<rparr>"
    by (cases r) simp
  with r(1) have run: "QPE_compute_energy ?self (Counts [(''000'', 1024)]) =
     Inr \<lparr>translation = 4, stretch = PyFloat (1 / 8), top_measurement_label = ''000'',
          top_measurement_decimal = 0, eigvals = [Finite (- 4)], energy = Finite (- 4)\<rparr>"
    by simp
  from t have "top_measurement_decimal_of [1 / 2, 1 / 4, 1 / 8] (replicate 3 CHR ''0'') = Inr 0"
    by blast
  then have dec: "top_measurement_decimal_of [1 / 2, 1 / 4, 1 / 8] ''000'' = Inr 0"
    unfolding zs' .
  from init na run dec show ?thesis by blast
qed

end
